theory Spec2Isabelle
  imports Main
begin

section \<open>Python values\<close>

text \<open>
  A Python \<open>str\<close> is a sequence of Unicode code points; it is modelled as a list of
  natural numbers, one per code point, so that the regular expression of
  \<open>validate_url\<close> and \<open>str.strip\<close> see the characters Python sees. Attribute
  names, dictionary keys and the fixed texts of exceptions are identifiers and
  literals of the source and are kept as HOL strings. The values are the ones a
  payload or an attribute of these modules holds: \<open>None\<close>, booleans, integers,
  strings and lists; floats and nested dictionaries are left out.
\<close>

type_synonym pystr = "nat list"

definition str :: "string \<Rightarrow> pystr" where
  "str s = map of_char s"

datatype pyval =
    PNone
  | PBool bool
  | PInt int
  | PStr pystr
  | PList "pyval list"

text \<open>Python's truth value testing, as used by \<open>any\<close>, \<open>or\<close> and \<open>if\<close>.\<close>

fun truthy :: "pyval \<Rightarrow> bool" where
  "truthy PNone = False"
| "truthy (PBool b) = b"
| "truthy (PInt i) = (i \<noteq> 0)"
| "truthy (PStr s) = (s \<noteq> [])"
| "truthy (PList xs) = (xs \<noteq> [])"

text \<open>\<open>a or b\<close>: the first operand when it is truthy, the second otherwise.\<close>

definition py_or :: "pyval \<Rightarrow> pyval \<Rightarrow> pyval" where
  "py_or a b = (if truthy a then a else b)"

text \<open>The exceptions the two modules raise or handle.\<close>

datatype exn =
    ValueError string
  | TypeError string
  | AttributeError string
  | SQLAlchemyError string
  | ValidationError "(string \<times> string) list"
  | OtherException string

fun is_SQLAlchemyError :: "exn \<Rightarrow> bool" where
  "is_SQLAlchemyError (SQLAlchemyError m) = True"
| "is_SQLAlchemyError e = False"

section \<open>Regular expressions, as far as \<open>url_regex\<close> needs them\<close>

text \<open>
  \<open>\s\<close> in a \<open>str\<close> pattern matches the Unicode whitespace code points: the ASCII
  ones (9 to 13 and 32), the separators 28 to 31, and the further ones listed below.
\<close>

definition is_space :: "nat \<Rightarrow> bool" where
  "is_space c =
     ((9 \<le> c \<and> c \<le> 13) \<or> (28 \<le> c \<and> c \<le> 32) \<or> c = 133 \<or> c = 160 \<or> c = 5760
      \<or> (8192 \<le> c \<and> c \<le> 8202) \<or> c = 8232 \<or> c = 8233 \<or> c = 8239 \<or> c = 8287
      \<or> c = 12288)"

text \<open>
  A member of a bracketed set is a literal character or \<open>\s\<close>. An atom consumes one
  character: a literal, \<open>.\<close> (anything but a newline, code point 10) or a negated set.
  An item is an atom taken once, optionally (\<open>?\<close>) or repeatedly (\<open>*\<close>), or one of the
  anchors \<open>^\<close> and \<open>$\<close>.
\<close>

datatype cls = Chr nat | Whitespace

datatype atom = Literal nat | AnyChar | NoneOf "cls list"

datatype item = Bol | Eol | One atom | Opt atom | Star atom

fun cls_ok :: "cls \<Rightarrow> nat \<Rightarrow> bool" where
  "cls_ok (Chr k) c = (c = k)"
| "cls_ok Whitespace c = is_space c"

fun atom_ok :: "atom \<Rightarrow> nat \<Rightarrow> bool" where
  "atom_ok (Literal k) c = (c = k)"
| "atom_ok AnyChar c = (c \<noteq> 10)"
| "atom_ok (NoneOf ms) c = (\<not> list_ex (\<lambda>m. cls_ok m c) ms)"

text \<open>
  \<open>re_from r i s\<close>: the pattern \<open>r\<close> matches a prefix of \<open>s\<close>, which starts at index
  \<open>i\<close> of the subject. Without flags \<open>^\<close> matches at index 0 only, and \<open>$\<close> matches at
  the end of the subject and just before a newline that ends it. \<open>re.match\<close> anchors the
  match at index 0 and does not ask it to reach the end.
\<close>

fun re_from :: "item list \<Rightarrow> nat \<Rightarrow> pystr \<Rightarrow> bool" where
  "re_from [] i s = True"
| "re_from (Bol # r) i s = (i = 0 \<and> re_from r i s)"
| "re_from (Eol # r) i s = ((s = [] \<or> s = [10]) \<and> re_from r i s)"
| "re_from (One a # r) i [] = False"
| "re_from (One a # r) i (c # cs) = (atom_ok a c \<and> re_from r (Suc i) cs)"
| "re_from (Opt a # r) i [] = re_from r i []"
| "re_from (Opt a # r) i (c # cs) =
     ((atom_ok a c \<and> re_from r (Suc i) cs) \<or> re_from r i (c # cs))"
| "re_from (Star a # r) i [] = re_from r i []"
| "re_from (Star a # r) i (c # cs) =
     ((atom_ok a c \<and> re_from (Star a # r) (Suc i) cs) \<or> re_from r i (c # cs))"

definition re_match :: "item list \<Rightarrow> pystr \<Rightarrow> bool" where
  "re_match r s = re_from r 0 s"

definition lit :: "string \<Rightarrow> item list" where
  "lit s = map (\<lambda>c. One (Literal (of_char c))) s"

section \<open>The schemas module\<close>

text \<open>
  \<open>url_regex\<close> is \<^verbatim>\<open>^https?:\/\/[^\s/$.?#].[^\s]*$\<close>, token by token
  (\<^verbatim>\<open>\/\<close> is an escaped slash).
\<close>

definition url_regex :: "item list" where
  "url_regex =
     [Bol] @ lit ''http'' @ [Opt (Literal (of_char CHR ''s''))] @ lit ''://'' @
     [One (NoneOf [Whitespace, Chr (of_char CHR ''/''), Chr (of_char CHR ''$''),
                   Chr (of_char CHR ''.''), Chr (of_char CHR ''?''), Chr (of_char CHR ''#'')]),
      One AnyChar,
      Star (NoneOf [Whitespace]),
      Eol]"

text \<open>
  \<open>validate_url\<close>: \<open>None\<close> is returned as it is; \<open>re.match\<close> on a value that is not a
  string raises \<open>TypeError\<close>.
\<close>

definition validate_url :: "pyval \<Rightarrow> exn + pyval" where
  "validate_url url =
     (case url of
        PNone \<Rightarrow> Inr url
      | PStr s \<Rightarrow>
          if \<not> re_match url_regex s then Inl (ValueError ''Invalid URL format'')
          else Inr url
      | _ \<Rightarrow> Inl (TypeError ''expected string or bytes-like object''))"

section \<open>Schema classes\<close>

text \<open>
  What a class body of the module declares for one field: the annotation, whether it
  is \<open>Optional[...]\<close>, the default (\<open>None\<close> for a required field, written \<open>...\<close> in
  the source) and the constraints given to \<open>Field\<close>.
\<close>

datatype annotation =
    T_str | T_EmailStr | T_HttpUrl | T_UserRole | T_UUID | T_datetime | T_bool | T_int
  | T_List string

record field =
  fname :: string
  annot :: annotation
  optional :: bool
  fdefault :: "pyval option"
  min_length :: "nat option"
  max_length :: "nat option"
  pattern :: "string option"

text \<open>
  A field validator (every one in the module is \<open>pre=True\<close>): the fields it is
  attached to, its \<open>always\<close> flag and the function it runs on the raw value. A root
  validator (\<open>pre=True\<close>) runs on the whole dictionary of submitted values.
\<close>

record field_validator =
  targets :: "string list"
  always :: bool
  run :: "pyval \<Rightarrow> exn + pyval"

type_synonym pydict = "(string \<times> pyval) list"

record model_class =
  cname :: string
  cfields :: "field list"
  validators :: "field_validator list"
  root_pre :: "(pydict \<Rightarrow> exn + pydict) list"

text \<open>
  Class creation. A subclass starts from the fields and validators of its base; a field
  it declares again replaces the inherited one, a new field is appended.
\<close>

fun upsert :: "field \<Rightarrow> field list \<Rightarrow> field list" where
  "upsert f [] = [f]"
| "upsert f (g # gs) = (if fname g = fname f then f # gs else g # upsert f gs)"

definition BaseModel :: model_class where
  "BaseModel = \<lparr>cname = ''BaseModel'', cfields = [], validators = [], root_pre = []\<rparr>"

definition define_class ::
  "model_class \<Rightarrow> string \<Rightarrow> field list \<Rightarrow> field_validator list \<Rightarrow>
   (pydict \<Rightarrow> exn + pydict) list \<Rightarrow> model_class" where
  "define_class base name own vs rs =
     \<lparr>cname = name,
      cfields = foldl (\<lambda>fs f. upsert f fs) (cfields base) own,
      validators = validators base @ vs,
      root_pre = root_pre base @ rs\<rparr>"

definition required :: "string \<Rightarrow> annotation \<Rightarrow> field" where
  "required n a =
     \<lparr>fname = n, annot = a, optional = False, fdefault = None,
      min_length = None, max_length = None, pattern = None\<rparr>"

definition opt :: "string \<Rightarrow> annotation \<Rightarrow> field" where
  "opt n a =
     \<lparr>fname = n, annot = a, optional = True, fdefault = Some PNone,
      min_length = None, max_length = None, pattern = None\<rparr>"

text \<open>The nickname pattern \<^verbatim>\<open>^[\w-]+$\<close> (character 0x5C is the backslash).\<close>

definition nickname_pattern :: string where
  "nickname_pattern = ''^['' @ [CHR 0x5C] @ ''w-]+$''"

definition UserBase :: model_class where
  "UserBase =
     define_class BaseModel ''UserBase''
       [required ''email'' T_EmailStr,
        (opt ''nickname'' T_str)\<lparr>min_length := Some 3, pattern := Some nickname_pattern\<rparr>,
        opt ''first_name'' T_str,
        opt ''last_name'' T_str,
        opt ''bio'' T_str,
        opt ''profile_picture_url'' T_str,
        opt ''linkedin_profile_url'' T_str,
        opt ''github_profile_url'' T_str,
        required ''role'' T_UserRole]
       [\<lparr>targets = [''profile_picture_url'', ''linkedin_profile_url'', ''github_profile_url''],
         always = False, run = validate_url\<rparr>]
       []"

definition UserCreate :: model_class where
  "UserCreate = define_class UserBase ''UserCreate'' [required ''password'' T_str] [] []"

text \<open>
  The module defines \<open>UserUpdate\<close> twice. The class of lines 42 to 57 is
  \<open>UserUpdate_1\<close> here, the class of lines 59 to 84 is \<open>UserUpdate_2\<close>.
\<close>

definition check_at_least_one_value :: "pydict \<Rightarrow> exn + pydict" where
  "check_at_least_one_value values =
     (if \<not> list_ex truthy (map snd values)
      then Inl (ValueError ''At least one field must be provided for update'')
      else Inr values)"

definition UserUpdate_1 :: model_class where
  "UserUpdate_1 =
     define_class UserBase ''UserUpdate''
       [opt ''email'' T_EmailStr,
        (opt ''nickname'' T_str)\<lparr>min_length := Some 3, pattern := Some nickname_pattern\<rparr>,
        opt ''first_name'' T_str,
        opt ''last_name'' T_str,
        opt ''bio'' T_str,
        opt ''profile_picture_url'' T_str,
        opt ''linkedin_profile_url'' T_str,
        opt ''github_profile_url'' T_str,
        opt ''role'' T_str]
       []
       [check_at_least_one_value]"

text \<open>\<open>str.strip()\<close> removes leading and trailing whitespace.\<close>

definition strip :: "pystr \<Rightarrow> pystr" where
  "strip s = rev (dropWhile is_space (rev (dropWhile is_space s)))"

definition strip_whitespace :: "pyval \<Rightarrow> exn + pyval" where
  "strip_whitespace v = (case v of PStr s \<Rightarrow> Inr (PStr (strip s)) | _ \<Rightarrow> Inr v)"

definition UserUpdate_2 :: model_class where
  "UserUpdate_2 =
     define_class BaseModel ''UserUpdate''
       [opt ''email'' T_EmailStr,
        (opt ''name'' T_str)\<lparr>max_length := Some 50\<rparr>,
        (opt ''bio'' T_str)\<lparr>max_length := Some 255\<rparr>,
        (opt ''location'' T_str)\<lparr>max_length := Some 100\<rparr>,
        (opt ''password'' T_str)\<lparr>min_length := Some 8\<rparr>,
        opt ''linkedin_profile_url'' T_HttpUrl,
        opt ''github_profile_url'' T_HttpUrl]
       [\<lparr>targets = [''name'', ''bio'', ''location''], always = True, run = strip_whitespace\<rparr>]
       []"

text \<open>
  The second class also overrides \<open>dict\<close>, to turn its two URL fields into strings
  on export. URLs are strings here throughout, so the override changes nothing and is
  left out.
\<close>

definition UserResponse :: model_class where
  "UserResponse =
     define_class UserBase ''UserResponse''
       [required ''id'' T_UUID,
        (opt ''is_professional'' T_bool)\<lparr>fdefault := Some (PBool False)\<rparr>,
        required ''created_at'' T_datetime,
        required ''updated_at'' T_datetime]
       [] []"

definition LoginRequest :: model_class where
  "LoginRequest =
     define_class BaseModel ''LoginRequest''
       [required ''email'' T_str, required ''password'' T_str] [] []"

definition ErrorResponse :: model_class where
  "ErrorResponse =
     define_class BaseModel ''ErrorResponse''
       [required ''error'' T_str, opt ''details'' T_str] [] []"

definition UserListResponse :: model_class where
  "UserListResponse =
     define_class BaseModel ''UserListResponse''
       [required ''items'' (T_List ''UserResponse''), required ''total'' T_int,
        required ''page'' T_int, required ''size'' T_int] [] []"

text \<open>
  The module's class statements in the order of the file, and the namespace they
  leave: each statement binds its name, a later one replacing an earlier binding.
  \<open>import_name\<close> is what \<^verbatim>\<open>from app.schemas.user_schemas import ...\<close> gives.
\<close>

definition class_statements :: "(string \<times> model_class) list" where
  "class_statements =
     [(''UserBase'', UserBase), (''UserCreate'', UserCreate),
      (''UserUpdate'', UserUpdate_1), (''UserUpdate'', UserUpdate_2),
      (''UserResponse'', UserResponse), (''LoginRequest'', LoginRequest),
      (''ErrorResponse'', ErrorResponse), (''UserListResponse'', UserListResponse)]"

definition module_namespace :: "string \<rightharpoonup> model_class" where
  "module_namespace = foldl (\<lambda>ns (n, c). ns(n \<mapsto> c)) Map.empty class_statements"

definition import_name :: "string \<Rightarrow> exn + model_class" where
  "import_name n =
     (case module_namespace n of
        None \<Rightarrow> Inl (OtherException ''ImportError'')
      | Some c \<Rightarrow> Inr c)"

section \<open>Objects and model construction\<close>

text \<open>
  An object is its class name and its attribute dictionary. Reading an attribute the
  object does not have raises \<open>AttributeError\<close>.
\<close>

record pyobj =
  ob_class :: string
  ob_dict :: pydict

definition getattr :: "pyobj \<Rightarrow> string \<Rightarrow> exn + pyval" where
  "getattr ob n =
     (case map_of (ob_dict ob) n of
        None \<Rightarrow> Inl (AttributeError n)
      | Some v \<Rightarrow> Inr v)"

text \<open>
  Modelled from the spec: the validation library is not part of the repository. The
  construction of a model instance follows its documented order: the \<open>pre\<close> root
  validators see the submitted dictionary; then every field of the class, in order,
  takes its submitted value through its \<open>pre\<close> validators and the check of its type
  (a parameter \<open>tv\<close>, which \<open>None\<close> passes for an \<open>Optional\<close> field), or takes its
  default when nothing was submitted (through the validators marked \<open>always\<close> only);
  a missing required field and every \<open>ValueError\<close> are collected into one
  \<open>ValidationError\<close>; submitted keys that name no field are ignored.
\<close>

fun run_all :: "('a \<Rightarrow> exn + 'a) list \<Rightarrow> 'a \<Rightarrow> exn + 'a" where
  "run_all [] v = Inr v"
| "run_all (g # gs) v = (case g v of Inl e \<Rightarrow> Inl e | Inr v' \<Rightarrow> run_all gs v')"

definition check_type :: "(field \<Rightarrow> pyval \<Rightarrow> exn + pyval) \<Rightarrow> field \<Rightarrow> pyval \<Rightarrow> exn + pyval" where
  "check_type tv f v = (if optional f \<and> v = PNone then Inr PNone else tv f v)"

definition validators_for :: "model_class \<Rightarrow> field \<Rightarrow> bool \<Rightarrow> (pyval \<Rightarrow> exn + pyval) list" where
  "validators_for c f only_always =
     map run (filter (\<lambda>v. fname f \<in> set (targets v) \<and> (always v \<or> \<not> only_always))
                     (validators c))"

definition validate_field ::
  "(field \<Rightarrow> pyval \<Rightarrow> exn + pyval) \<Rightarrow> model_class \<Rightarrow> pydict \<Rightarrow> field \<Rightarrow> exn + pyval" where
  "validate_field tv c values f =
     (case map_of values (fname f) of
        Some raw \<Rightarrow>
          (case run_all (validators_for c f False) raw of
             Inl e \<Rightarrow> Inl e
           | Inr v \<Rightarrow> check_type tv f v)
      | None \<Rightarrow>
          (case fdefault f of
             None \<Rightarrow> Inl (ValueError ''Field required'')
           | Some d \<Rightarrow>
               if validators_for c f True = [] then Inr d
               else (case run_all (validators_for c f True) d of
                       Inl e \<Rightarrow> Inl e
                     | Inr v \<Rightarrow> check_type tv f v)))"

fun validate_fields ::
  "(field \<Rightarrow> pyval \<Rightarrow> exn + pyval) \<Rightarrow> model_class \<Rightarrow> pydict \<Rightarrow> field list \<Rightarrow>
   exn + ((string \<times> string) list \<times> pydict)" where
  "validate_fields tv c values [] = Inr ([], [])"
| "validate_fields tv c values (f # fs) =
     (case validate_field tv c values f of
        Inl (ValueError m) \<Rightarrow>
          (case validate_fields tv c values fs of
             Inl e \<Rightarrow> Inl e
           | Inr (errs, kvs) \<Rightarrow> Inr ((fname f, m) # errs, kvs))
      | Inl e \<Rightarrow> Inl e
      | Inr v \<Rightarrow>
          (case validate_fields tv c values fs of
             Inl e \<Rightarrow> Inl e
           | Inr (errs, kvs) \<Rightarrow> Inr (errs, (fname f, v) # kvs)))"

definition construct ::
  "(field \<Rightarrow> pyval \<Rightarrow> exn + pyval) \<Rightarrow> model_class \<Rightarrow> pydict \<Rightarrow> exn + pyobj" where
  "construct tv c submitted =
     (case run_all (root_pre c) submitted of
        Inl (ValueError m) \<Rightarrow> Inl (ValidationError [(''__root__'', m)])
      | Inl e \<Rightarrow> Inl e
      | Inr values \<Rightarrow>
          (case validate_fields tv c values (cfields c) of
             Inl e \<Rightarrow> Inl e
           | Inr (errs, kvs) \<Rightarrow>
               if errs = [] then Inr \<lparr>ob_class = cname c, ob_dict = kvs\<rparr>
               else Inl (ValidationError errs)))"

text \<open>
  \<open>from_attributes\<close>: a model is built from an object by reading, for each field, the
  attribute of that name where the object has it.
\<close>

definition model_validate ::
  "(field \<Rightarrow> pyval \<Rightarrow> exn + pyval) \<Rightarrow> model_class \<Rightarrow> pyobj \<Rightarrow> exn + pyobj" where
  "model_validate tv c ob =
     construct tv c
       (concat (map (\<lambda>f. case map_of (ob_dict ob) (fname f) of
                            None \<Rightarrow> [] | Some v \<Rightarrow> [(fname f, v)])
                    (cfields c)))"

text \<open>An instance of a class has exactly the fields of the class as attributes.\<close>

definition instance_of :: "model_class \<Rightarrow> pyobj \<Rightarrow> bool" where
  "instance_of c ob =
     (ob_class ob = cname c \<and> map fst (ob_dict ob) = map fname (cfields c))"

section \<open>The user entity and the session\<close>

text \<open>
  Modelled from the spec: \<open>app.models.user_model\<close> (the \<open>User\<close> entity and the
  \<open>UserRole\<close> enumeration) is not among the sources. The role is one of a fixed set
  that includes \<open>USER\<close>, \<open>AUTHENTICATED\<close> and \<open>ADMIN\<close>. The entity carries the
  attributes the service passes to its constructor or assigns; the primary key is the
  key of the table, and the pro-status flag of a new entity is false.
\<close>

datatype UserRole = USER | AUTHENTICATED | ADMIN

record user =
  email :: pyval
  hashed_password :: pyval
  github_link :: pyval
  linkedin_link :: pyval
  profile_photo_url :: pyval
  role :: UserRole
  verification_token :: pyval
  nickname :: pyval
  is_pro :: bool

definition User ::
  "pyval \<Rightarrow> pyval \<Rightarrow> pyval \<Rightarrow> pyval \<Rightarrow> pyval \<Rightarrow> UserRole \<Rightarrow> pyval \<Rightarrow> pyval \<Rightarrow> user" where
  "User em hp gh li ph ro tok nick =
     \<lparr>email = em, hashed_password = hp, github_link = gh, linkedin_link = li,
      profile_photo_url = ph, role = ro, verification_token = tok, nickname = nick,
      is_pro = False\<rparr>"

text \<open>
  Modelled from the spec: the persistence layer is an external collaborator with the
  operations \<open>execute\<close>, \<open>commit\<close>, \<open>rollback\<close>, \<open>refresh\<close> and \<open>add\<close>. A session
  holds the committed table, its own working view of the table (the loaded entities
  with the attribute assignments made on them), the objects added and not yet
  inserted, and the next primary key the database hands out. Every round trip to the
  database (\<open>execute\<close>, \<open>commit\<close>, \<open>rollback\<close>, \<open>refresh\<close>) takes the next entry of
  \<open>script\<close>: \<open>None\<close> lets it succeed, \<open>Some e\<close> makes it raise \<open>e\<close>; an exhausted
  script means no further failure. \<open>trace\<close> records the calls made on the session, in
  order.
\<close>

datatype call = Execute | Commit | Rollback | Add | Refresh

record session =
  committed :: "int \<rightharpoonup> user"
  working :: "int \<rightharpoonup> user"
  added :: "user list"
  next_id :: int
  script :: "exn option list"
  trace :: "call list"

definition round_trip :: "call \<Rightarrow> session \<Rightarrow> exn option \<times> session" where
  "round_trip c s =
     (case script s of
        [] \<Rightarrow> (None, s\<lparr>trace := trace s @ [c]\<rparr>)
      | x # xs \<Rightarrow> (x, s\<lparr>script := xs, trace := trace s @ [c]\<rparr>))"

text \<open>\<open>select(User).filter_by(id=user_id)\<close>, the one query the service builds.\<close>

datatype query = Select_User_by_id int

definition rows_of :: "(int \<rightharpoonup> user) \<Rightarrow> query \<Rightarrow> user list" where
  "rows_of tab q =
     (case q of Select_User_by_id k \<Rightarrow> (case tab k of None \<Rightarrow> [] | Some u \<Rightarrow> [u]))"

definition execute :: "session \<Rightarrow> query \<Rightarrow> (exn + user list) \<times> session" where
  "execute s q =
     (case round_trip Execute s of
        (Some e, s') \<Rightarrow> (Inl e, s')
      | (None, s') \<Rightarrow> (Inr (rows_of (working s') q), s'))"

text \<open>
  A commit inserts the added objects under fresh keys and makes the working view the
  committed table. A key that is already taken is a violation of the primary key, which
  the database reports as an error.
\<close>

definition new_ids :: "session \<Rightarrow> int list" where
  "new_ids s = map (\<lambda>i. next_id s + int i) [0..<length (added s)]"

definition flushed :: "session \<Rightarrow> (int \<rightharpoonup> user)" where
  "flushed s = foldl (\<lambda>tab (k, u). tab(k \<mapsto> u)) (working s) (zip (new_ids s) (added s))"

definition commit :: "session \<Rightarrow> (exn + unit) \<times> session" where
  "commit s =
     (case round_trip Commit s of
        (Some e, s') \<Rightarrow> (Inl e, s')
      | (None, s') \<Rightarrow>
          if list_ex (\<lambda>k. working s' k \<noteq> None) (new_ids s')
          then (Inl (SQLAlchemyError ''IntegrityError''), s')
          else (Inr (),
                s'\<lparr>committed := flushed s', working := flushed s', added := [],
                   next_id := next_id s' + int (length (added s'))\<rparr>))"

definition rollback :: "session \<Rightarrow> (exn + unit) \<times> session" where
  "rollback s =
     (case round_trip Rollback s of
        (Some e, s') \<Rightarrow> (Inl e, s')
      | (None, s') \<Rightarrow> (Inr (), s'\<lparr>working := committed s', added := []\<rparr>))"

definition add :: "session \<Rightarrow> user \<Rightarrow> session" where
  "add s u = s\<lparr>added := added s @ [u], trace := trace s @ [Add]\<rparr>"

definition refresh :: "session \<Rightarrow> int \<Rightarrow> (exn + user) \<times> session" where
  "refresh s k =
     (case round_trip Refresh s of
        (Some e, s') \<Rightarrow> (Inl e, s')
      | (None, s') \<Rightarrow>
          (case committed s' k of
             None \<Rightarrow> (Inl (SQLAlchemyError ''InvalidRequestError''), s')
           | Some u \<Rightarrow> (Inr u, s'\<lparr>working := (working s')(k \<mapsto> u)\<rparr>)))"

text \<open>
  An attribute assignment on a loaded entity changes the session's working view of the
  row with that key, and nothing else, until a commit.
\<close>

definition store :: "session \<Rightarrow> int \<Rightarrow> user \<Rightarrow> session" where
  "store s k u = s\<lparr>working := (working s)(k \<mapsto> u)\<rparr>"

section \<open>The service module\<close>

text \<open>
  The helpers of \<open>app.utils\<close> are parameters: \<open>hash_password\<close>,
  \<open>generate_verification_token\<close> and \<open>generate_nickname\<close>, each of which may raise.
  The calls of the module's logger are left out: they change nothing a caller or the
  session can see.
\<close>

record helpers =
  hash_password :: "pyval \<Rightarrow> exn + pyval"
  generate_verification_token :: "exn + pyval"
  generate_nickname :: "exn + pyval"

text \<open>
  \<open>_execute_query\<close> (an Isabelle name cannot start with an underscore): the handler
  names \<open>SQLAlchemyError\<close>, so any other exception leaves the function, and so does
  an exception that the rollback inside the handler raises.
\<close>

definition except_SQLAlchemyError :: "exn \<Rightarrow> session \<Rightarrow> (exn + 'a option) \<times> session" where
  "except_SQLAlchemyError e s =
     (if is_SQLAlchemyError e
      then (case rollback s of
              (Inl e', s') \<Rightarrow> (Inl e', s')
            | (Inr _, s') \<Rightarrow> (Inr None, s'))
      else (Inl e, s))"

definition execute_query :: "session \<Rightarrow> query \<Rightarrow> (exn + user list option) \<times> session" where
  "execute_query s q =
     (case execute s q of
        (Inl e, s1) \<Rightarrow> except_SQLAlchemyError e s1
      | (Inr result, s1) \<Rightarrow>
          (case commit s1 of
             (Inl e, s2) \<Rightarrow> except_SQLAlchemyError e s2
           | (Inr _, s2) \<Rightarrow> (Inr (Some result), s2)))"

definition first :: "'a list \<Rightarrow> 'a option" where
  "first rows = (case rows of [] \<Rightarrow> None | u # _ \<Rightarrow> Some u)"

text \<open>\<open>_fetch_user\<close>, with the filter \<open>id=user_id\<close> that \<open>get_by_id\<close> gives it.\<close>

definition fetch_user :: "session \<Rightarrow> int \<Rightarrow> (exn + user option) \<times> session" where
  "fetch_user s user_id =
     (case execute_query s (Select_User_by_id user_id) of
        (Inl e, s') \<Rightarrow> (Inl e, s')
      | (Inr None, s') \<Rightarrow> (Inr None, s')
      | (Inr (Some result), s') \<Rightarrow> (Inr (first result), s'))"

definition get_by_id :: "session \<Rightarrow> int \<Rightarrow> (exn + user option) \<times> session" where
  "get_by_id s user_id = fetch_user s user_id"

text \<open>
  \<open>create_user\<close>. The body of the \<open>try\<close> up to the call of the constructor touches no
  session: \<open>new_user_of\<close> evaluates it in the order of the source. Every exception ends
  in the handler \<open>except Exception\<close>, which returns \<open>None\<close>.
\<close>

definition new_user_of :: "helpers \<Rightarrow> pyobj \<Rightarrow> exn + user" where
  "new_user_of h user_data =
     (case getattr user_data ''password'' of Inl e \<Rightarrow> Inl e | Inr pw \<Rightarrow>
      case hash_password h pw of Inl e \<Rightarrow> Inl e | Inr hashed \<Rightarrow>
      case getattr user_data ''email'' of Inl e \<Rightarrow> Inl e | Inr em \<Rightarrow>
      case getattr user_data ''github_link'' of Inl e \<Rightarrow> Inl e | Inr gh \<Rightarrow>
      case getattr user_data ''linkedin_link'' of Inl e \<Rightarrow> Inl e | Inr li \<Rightarrow>
      case getattr user_data ''profile_photo_url'' of Inl e \<Rightarrow> Inl e | Inr ph \<Rightarrow>
      case generate_verification_token h of Inl e \<Rightarrow> Inl e | Inr tok \<Rightarrow>
      case generate_nickname h of Inl e \<Rightarrow> Inl e | Inr nick \<Rightarrow>
        Inr (User em hashed gh li ph USER tok nick))"

definition create_user :: "helpers \<Rightarrow> session \<Rightarrow> pyobj \<Rightarrow> user option \<times> session" where
  "create_user h s user_data =
     (case new_user_of h user_data of
        Inl e \<Rightarrow> (None, s)
      | Inr new_user \<Rightarrow>
          (let s1 = add s new_user;
               key = next_id s1 + int (length (added s))
           in case commit s1 of
                (Inl e, s2) \<Rightarrow> (None, s2)
              | (Inr _, s2) \<Rightarrow>
                  (case refresh s2 key of
                     (Inl e, s3) \<Rightarrow> (None, s3)
                   | (Inr u, s3) \<Rightarrow> (Some u, s3))))"

text \<open>
  \<open>update_user_profile\<close>. Each assignment reads the attribute of \<open>user_update\<close> first
  and then writes the entity, so an exception leaves the assignments made before it.
\<close>

definition update_user_profile :: "session \<Rightarrow> int \<Rightarrow> pyobj \<Rightarrow> user option \<times> session" where
  "update_user_profile s user_id user_update =
     (case get_by_id s user_id of
        (Inl e, s1) \<Rightarrow> (None, s1)
      | (Inr None, s1) \<Rightarrow> (None, s1)
      | (Inr (Some db_user), s1) \<Rightarrow>
          (case getattr user_update ''github_link'' of Inl e \<Rightarrow> (None, s1) | Inr gh \<Rightarrow>
           let u1 = db_user\<lparr>github_link := py_or gh (github_link db_user)\<rparr>;
               s2 = store s1 user_id u1
           in case getattr user_update ''linkedin_link'' of Inl e \<Rightarrow> (None, s2) | Inr li \<Rightarrow>
           let u2 = u1\<lparr>linkedin_link := py_or li (linkedin_link u1)\<rparr>;
               s3 = store s2 user_id u2
           in case getattr user_update ''profile_photo_url'' of Inl e \<Rightarrow> (None, s3) | Inr ph \<Rightarrow>
           let u3 = u2\<lparr>profile_photo_url := py_or ph (profile_photo_url u2)\<rparr>;
               s4 = store s3 user_id u3
           in case commit s4 of
                (Inl e, s5) \<Rightarrow> (None, s5)
              | (Inr _, s5) \<Rightarrow>
                  (case refresh s5 user_id of
                     (Inl e, s6) \<Rightarrow> (None, s6)
                   | (Inr u, s6) \<Rightarrow> (Some u, s6))))"

definition upgrade_user_to_pro :: "session \<Rightarrow> int \<Rightarrow> user option \<times> session" where
  "upgrade_user_to_pro s user_id =
     (case get_by_id s user_id of
        (Inl e, s1) \<Rightarrow> (None, s1)
      | (Inr None, s1) \<Rightarrow> (None, s1)
      | (Inr (Some db_user), s1) \<Rightarrow>
          (let s2 = store s1 user_id (db_user\<lparr>is_pro := True\<rparr>)
           in case commit s2 of
                (Inl e, s3) \<Rightarrow> (None, s3)
              | (Inr _, s3) \<Rightarrow>
                  (case refresh s3 user_id of
                     (Inl e, s4) \<Rightarrow> (None, s4)
                   | (Inr u, s4) \<Rightarrow> (Some u, s4))))"

section \<open>Predicates of the statements\<close>

text \<open>
  The pattern of \<open>url_regex\<close> read as a set of strings, in the words of the
  specification: the scheme \<open>http://\<close> or \<open>https://\<close>, one character that is neither
  whitespace nor one of \<^verbatim>\<open>/ $ . ? #\<close>, one character that is not a newline, any
  number of characters that are not whitespace, and then the end of the string or one
  final newline.
\<close>

definition url_shape :: "pystr \<Rightarrow> bool" where
  "url_shape s =
     (\<exists>scheme c d rest tail.
        s = scheme @ c # d # rest @ tail \<and>
        (scheme = str ''http://'' \<or> scheme = str ''https://'') \<and>
        \<not> is_space c \<and> c \<notin> set (str ''/$.?#'') \<and>
        d \<noteq> 10 \<and>
        list_all (\<lambda>x. \<not> is_space x) rest \<and>
        (tail = [] \<or> tail = [10]))"

text \<open>
  The attribute \<open>n\<close> of an object is truthy: the object has it and its value tests
  true. An absent attribute and a falsy value are both \<open>\<not> attr_truthy\<close>.
\<close>

definition attr_truthy :: "pyobj \<Rightarrow> string \<Rightarrow> bool" where
  "attr_truthy ob n = (case getattr ob n of Inl e \<Rightarrow> False | Inr v \<Rightarrow> truthy v)"

text \<open>
  \<open>frame_ok upd u w\<close>: the entity \<open>w\<close> keeps the value \<open>u\<close> has in each of the three
  profile fields for which \<open>upd\<close> carries no truthy value.
\<close>

definition frame_ok :: "pyobj \<Rightarrow> user \<Rightarrow> user \<Rightarrow> bool" where
  "frame_ok upd u w =
     ((attr_truthy upd ''github_link'' \<or> github_link w = github_link u) \<and>
      (attr_truthy upd ''linkedin_link'' \<or> linkedin_link w = linkedin_link u) \<and>
      (attr_truthy upd ''profile_photo_url'' \<or> profile_photo_url w = profile_photo_url u))"

text \<open>
  The next \<open>n\<close> round trips to the database succeed. A lookup goes through: its
  \<open>execute\<close> and its \<open>commit\<close> succeed, and the commit meets no primary key that is
  already taken.
\<close>

definition round_trips_ok :: "nat \<Rightarrow> session \<Rightarrow> bool" where
  "round_trips_ok n s = list_all (\<lambda>x. x = None) (take n (script s))"

definition lookup_succeeds :: "session \<Rightarrow> bool" where
  "lookup_succeeds s =
     (round_trips_ok 2 s \<and> \<not> list_ex (\<lambda>k. working s k \<noteq> None) (new_ids s))"

text \<open>
  The exception a lookup meets, if any: the one \<open>execute\<close> raises, else the one
  \<open>commit\<close> raises, else the violation of the primary key that the commit reports.
  \<open>rollback_outcome\<close> is the outcome of the round trip that follows the failing one,
  which is the rollback of the handler.
\<close>

definition lookup_failure :: "session \<Rightarrow> exn option" where
  "lookup_failure s =
     (case script s of
        Some e # rest \<Rightarrow> Some e
      | None # Some e # rest \<Rightarrow> Some e
      | _ \<Rightarrow>
          if list_ex (\<lambda>k. working s k \<noteq> None) (new_ids s)
          then Some (SQLAlchemyError ''IntegrityError'')
          else None)"

definition next_outcome :: "exn option list \<Rightarrow> exn option" where
  "next_outcome xs = (case xs of [] \<Rightarrow> None | x # _ \<Rightarrow> x)"

definition rollback_outcome :: "session \<Rightarrow> exn option" where
  "rollback_outcome s =
     (case script s of
        Some e # rest \<Rightarrow> next_outcome rest
      | x # y # rest \<Rightarrow> next_outcome rest
      | _ \<Rightarrow> None)"

text \<open>The pro-status flag of the row \<open>k\<close> is set, in the working view and as committed.\<close>

definition pro_flag_set :: "session \<Rightarrow> int \<Rightarrow> bool" where
  "pro_flag_set s k =
     ((case working s k of None \<Rightarrow> False | Some u \<Rightarrow> is_pro u) \<and>
      (case committed s k of None \<Rightarrow> False | Some u \<Rightarrow> is_pro u))"

section \<open>Example data\<close>

text \<open>
  A type check that accepts every value, and the scenario of the specification: a user
  is created with the email \<open>a@b.com\<close>, the password \<open>Secure*1234\<close> and the role
  \<open>USER\<close>.
\<close>

definition accept :: "field \<Rightarrow> pyval \<Rightarrow> exn + pyval" where
  "accept f v = Inr v"

definition scenario_input :: pydict where
  "scenario_input =
     [(''email'', PStr (str ''a@b.com'')), (''password'', PStr (str ''Secure*1234'')),
      (''role'', PStr (str ''USER''))]"

definition scenario_user_data :: pyobj where
  "scenario_user_data =
     \<lparr>ob_class = ''UserCreate'',
      ob_dict =
        [(''email'', PStr (str ''a@b.com'')), (''nickname'', PNone), (''first_name'', PNone),
         (''last_name'', PNone), (''bio'', PNone), (''profile_picture_url'', PNone),
         (''linkedin_profile_url'', PNone), (''github_profile_url'', PNone),
         (''role'', PStr (str ''USER'')), (''password'', PStr (str ''Secure*1234''))]\<rparr>"

text \<open>
  An object that is no schema instance but carries the attributes the service reads, a
  stored user, and a session that holds this user under the key 1 and has nothing
  pending and no failure ahead.
\<close>

definition duck_update :: pyobj where
  "duck_update =
     \<lparr>ob_class = ''SimpleNamespace'',
      ob_dict = [(''github_link'', PStr (str ''https://github.com/ab'')),
                 (''linkedin_link'', PStr []),
                 (''profile_photo_url'', PNone)]\<rparr>"

definition demo_user :: user where
  "demo_user =
     User (PStr (str ''a@b.com'')) (PStr (str ''hashed'')) PNone
       (PStr (str ''https://linkedin.com/in/ab'')) PNone USER (PStr (str ''token''))
       (PStr (str ''ab''))"

definition demo_session :: session where
  "demo_session =
     \<lparr>committed = [1 \<mapsto> demo_user], working = [1 \<mapsto> demo_user], added = [],
      next_id = 2, script = [], trace = []\<rparr>"

definition demo_update :: pyobj where
  "demo_update =
     \<lparr>ob_class = ''UserUpdate'',
      ob_dict = [(''email'', PNone), (''name'', PNone), (''bio'', PStr (str ''hi'')),
                 (''location'', PNone), (''password'', PNone),
                 (''linkedin_profile_url'', PNone),
                 (''github_profile_url'', PStr (str ''https://github.com/ab''))]\<rparr>"

text \<open>Helpers that hash every password to the same text and hand out fixed values.\<close>

definition demo_helpers :: helpers where
  "demo_helpers =
     \<lparr>hash_password = (\<lambda>p. Inr (PStr (str ''hashed''))),
      generate_verification_token = Inr (PStr (str ''token'')),
      generate_nickname = Inr (PStr (str ''ab''))\<rparr>"

text \<open>
  An entity as the persistence layer hands it to the response schema: an object with the
  stored attributes, the hashed password among them.
\<close>

definition demo_entity :: pyobj where
  "demo_entity =
     \<lparr>ob_class = ''User'',
      ob_dict = [(''id'', PInt 1), (''email'', PStr (str ''a@b.com'')),
                 (''hashed_password'', PStr (str ''hashed'')), (''role'', PStr (str ''USER'')),
                 (''nickname'', PStr (str ''ab'')), (''is_professional'', PBool True),
                 (''created_at'', PStr (str ''2023-01-01'')),
                 (''updated_at'', PStr (str ''2023-01-02''))]\<rparr>"

text \<open>The example session when the database fails at the next round trip.\<close>

definition failing_session :: session where
  "failing_session = demo_session\<lparr>script := [Some (SQLAlchemyError ''connection lost'')]\<rparr>"

text \<open>
  The example session when \<open>execute\<close> raises an exception that is no
  \<open>SQLAlchemyError\<close>, and when the rollback after a database error fails in its turn.
\<close>

definition crashing_session :: session where
  "crashing_session = demo_session\<lparr>script := [Some (OtherException ''ConnectionRefusedError'')]\<rparr>"

definition broken_session :: session where
  "broken_session =
     demo_session\<lparr>script := [Some (SQLAlchemyError ''connection lost''),
                             Some (SQLAlchemyError ''cannot roll back'')]\<rparr>"

section \<open>The language of \<open>url_regex\<close>\<close>

text \<open>
  The matcher on \<open>url_regex\<close> accepts exactly the strings of \<open>url_shape\<close>.
\<close>

lemma re_from_lit:
  "re_from (lit w @ r) i s \<longleftrightarrow> (\<exists>t. s = str w @ t \<and> re_from r (i + length w) t)"
proof (induction w arbitrary: i s)
  case Nil
  then show ?case by (simp add: lit_def str_def)
next
  case (Cons a w)
  have IH: "\<And>i s. re_from (lit w @ r) i s \<longleftrightarrow> (\<exists>t. s = str w @ t \<and> re_from r (i + length w) t)"
    using Cons.IH by blast
  show ?case
  proof (cases s)
    case Nil
    then show ?thesis by (simp add: lit_def str_def)
  next
    case (Cons c cs)
    have "re_from (lit (a # w) @ r) i (c # cs) \<longleftrightarrow> (c = of_char a \<and> re_from (lit w @ r) (Suc i) cs)"
      by (simp add: lit_def)
    also have "\<dots> \<longleftrightarrow> (c = of_char a \<and> (\<exists>t. cs = str w @ t \<and> re_from r (Suc i + length w) t))"
      using IH by simp
    also have "\<dots> \<longleftrightarrow> (\<exists>t. c # cs = str (a # w) @ t \<and> re_from r (i + length (a # w)) t)"
      by (auto simp: str_def)
    finally show ?thesis using Cons by simp
  qed
qed

lemma re_from_star_eol:
  "re_from [Star (NoneOf [Whitespace]), Eol] i s \<longleftrightarrow>
   (\<exists>rest tail. s = rest @ tail \<and> list_all (\<lambda>x. \<not> is_space x) rest \<and> (tail = [] \<or> tail = [10]))"
proof (induction s arbitrary: i)
  case Nil
  then show ?case by simp
next
  case (Cons c cs)
  have sp: "is_space 10" by (simp add: is_space_def)
  show ?case (is "?L = ?R")
  proof
    assume L: ?L
    then consider "\<not> is_space c" "re_from [Star (NoneOf [Whitespace]), Eol] (Suc i) cs"
      | "c = 10" "cs = []"
      by auto
    then show ?R
    proof cases
      case 1
      then obtain rest tail where "cs = rest @ tail" "list_all (\<lambda>x. \<not> is_space x) rest"
        "tail = [] \<or> tail = [10]"
        using Cons.IH by blast
      then have "c # cs = (c # rest) @ tail \<and> list_all (\<lambda>x. \<not> is_space x) (c # rest) \<and> (tail = [] \<or> tail = [10])"
        using 1 by simp
      then show ?thesis by blast
    next
      case 2
      then have "c # cs = [] @ [10] \<and> list_all (\<lambda>x. \<not> is_space x) []" by simp
      then show ?thesis by blast
    qed
  next
    assume ?R
    then obtain rest tail where R: "c # cs = rest @ tail" "list_all (\<lambda>x. \<not> is_space x) rest"
        "tail = [] \<or> tail = [10]" by blast
    show ?L
    proof (cases rest)
      case Nil
      then have "c = 10 \<and> cs = []" using R by auto
      then show ?thesis by simp
    next
      case (Cons x xs)
      then have "c = x" "cs = xs @ tail" "\<not> is_space x" "list_all (\<lambda>x. \<not> is_space x) xs"
        using R by auto
      then have "re_from [Star (NoneOf [Whitespace]), Eol] (Suc i) cs"
        using Cons.IH R(3) by blast
      then show ?thesis using \<open>c = x\<close> \<open>\<not> is_space x\<close> by simp
    qed
  qed
qed

lemma re_from_tail:
  "re_from [One (NoneOf [Whitespace, Chr (of_char CHR ''/''), Chr (of_char CHR ''$''),
                   Chr (of_char CHR ''.''), Chr (of_char CHR ''?''), Chr (of_char CHR ''#'')]),
      One AnyChar, Star (NoneOf [Whitespace]), Eol] i t \<longleftrightarrow>
   (\<exists>c d rest tail. t = c # d # rest @ tail \<and> \<not> is_space c \<and> c \<notin> set (str ''/$.?#'') \<and>
        d \<noteq> 10 \<and> list_all (\<lambda>x. \<not> is_space x) rest \<and> (tail = [] \<or> tail = [10]))"
proof (cases t)
  case Nil
  then show ?thesis by simp
next
  case (Cons c t1)
  show ?thesis
  proof (cases t1)
    case Nil
    then show ?thesis using Cons by simp
  next
    case (Cons d t2)
    then show ?thesis using \<open>t = c # t1\<close>
      by (simp add: re_from_star_eol str_def) blast
  qed
qed

lemma re_from_opt_literal:
  "re_from (Opt (Literal k) # r) i s \<longleftrightarrow>
     (\<exists>t. s = k # t \<and> re_from r (Suc i) t) \<or> re_from r i s"
  by (cases s) auto

lemma url_regex_match_iff: "re_match url_regex s \<longleftrightarrow> url_shape s"
proof -
  define tl where "tl = [One (NoneOf [Whitespace, Chr (of_char CHR ''/''), Chr (of_char CHR ''$''),
                   Chr (of_char CHR ''.''), Chr (of_char CHR ''?''), Chr (of_char CHR ''#'')]),
      One AnyChar, Star (NoneOf [Whitespace]), Eol]"
  define body where "body t \<longleftrightarrow> (\<exists>c d rest tail. t = c # d # rest @ tail \<and> \<not> is_space c \<and> c \<notin> set (str ''/$.?#'') \<and>
        d \<noteq> 10 \<and> list_all (\<lambda>x. \<not> is_space x) rest \<and> (tail = [] \<or> tail = [10]))" for t
  have T: "re_from tl i t \<longleftrightarrow> body t" for i t
    unfolding tl_def body_def by (rule re_from_tail)
  have C: "re_from (lit ''://'' @ tl) i t \<longleftrightarrow> (\<exists>t'. t = str ''://'' @ t' \<and> body t')" for i t
    by (simp add: re_from_lit T)
  have B: "re_from (Opt (Literal k) # (lit ''://'' @ tl)) i t \<longleftrightarrow>
        (\<exists>t'. (t = k # str ''://'' @ t' \<or> t = str ''://'' @ t') \<and> body t')" for i t k
    unfolding re_from_opt_literal C by auto
  have A: "re_match url_regex s \<longleftrightarrow>
        (\<exists>t. s = str ''http'' @ t \<and>
           (\<exists>t'. (t = 115 # str ''://'' @ t' \<or> t = str ''://'' @ t') \<and> body t'))"
    unfolding re_match_def url_regex_def tl_def[symmetric] by (simp add: re_from_lit B)
  have "re_match url_regex s \<longleftrightarrow> (\<exists>t'. (s = str ''https://'' @ t' \<or> s = str ''http://'' @ t') \<and> body t')"
    unfolding A by (auto simp: str_def)
  also have "\<dots> \<longleftrightarrow> url_shape s"
    unfolding url_shape_def body_def by blast
  finally show ?thesis .
qed

section \<open>Instances of the schema classes\<close>

text \<open>
  A constructed object has the fields of its class as attributes, and no other.
\<close>

lemma validate_fields_names:
  "validate_fields tv c values fs = Inr ([], kvs) \<Longrightarrow> map fst kvs = map fname fs"
proof (induction fs arbitrary: kvs)
  case Nil
  then show ?case by simp
next
  case (Cons f fs)
  then show ?case
    by (auto split: sum.splits exn.splits prod.splits)
qed

lemma construct_instance_of:
  "construct tv c submitted = Inr ob \<Longrightarrow> instance_of c ob"
  by (auto simp: construct_def instance_of_def validate_fields_names
      split: sum.splits exn.splits prod.splits if_splits)

lemma getattr_absent:
  "n \<notin> set (map fst (ob_dict ob)) \<Longrightarrow> getattr ob n = Inl (AttributeError n)"
  by (simp add: getattr_def map_of_eq_None_iff[THEN iffD2])

lemmas class_defs =
  define_class_def BaseModel_def UserBase_def UserCreate_def UserUpdate_1_def UserUpdate_2_def
  UserResponse_def required_def opt_def

lemma UserBase_names:
  "map fname (cfields UserBase) =
     [''email'', ''nickname'', ''first_name'', ''last_name'', ''bio'', ''profile_picture_url'',
      ''linkedin_profile_url'', ''github_profile_url'', ''role'']"
  by (simp add: class_defs)

lemma UserCreate_names:
  "map fname (cfields UserCreate) =
     [''email'', ''nickname'', ''first_name'', ''last_name'', ''bio'', ''profile_picture_url'',
      ''linkedin_profile_url'', ''github_profile_url'', ''role'', ''password'']"
  by (simp add: class_defs)

lemma UserUpdate_1_names:
  "map fname (cfields UserUpdate_1) =
     [''email'', ''nickname'', ''first_name'', ''last_name'', ''bio'', ''profile_picture_url'',
      ''linkedin_profile_url'', ''github_profile_url'', ''role'']"
  by (simp add: class_defs)

lemma UserUpdate_2_names:
  "map fname (cfields UserUpdate_2) =
     [''email'', ''name'', ''bio'', ''location'', ''password'', ''linkedin_profile_url'',
      ''github_profile_url'']"
  by (simp add: class_defs)

lemma UserResponse_names:
  "map fname (cfields UserResponse) =
     [''email'', ''nickname'', ''first_name'', ''last_name'', ''bio'', ''profile_picture_url'',
      ''linkedin_profile_url'', ''github_profile_url'', ''role'', ''id'', ''is_professional'',
      ''created_at'', ''updated_at'']"
  by (simp add: class_defs)

lemma new_user_of_UserCreate:
  assumes "instance_of UserCreate user_data"
  shows "\<exists>e. new_user_of h user_data = Inl e"
proof -
  have names: "map fst (ob_dict user_data) = map fname (cfields UserCreate)"
    using assms by (simp add: instance_of_def)
  have "''github_link'' \<notin> set (map fst (ob_dict user_data))"
    unfolding names UserCreate_names by simp
  then have "getattr user_data ''github_link'' = Inl (AttributeError ''github_link'')"
    by (rule getattr_absent)
  then show ?thesis
    by (simp add: new_user_of_def split: sum.splits)
qed

lemma construct_scenario:
  "construct accept UserCreate scenario_input = Inr scenario_user_data"
  by (simp add: construct_def class_defs scenario_input_def scenario_user_data_def
      validate_field_def validators_for_def check_type_def accept_def)

lemma scenario_instance: "instance_of UserCreate scenario_user_data"
  by (simp add: instance_of_def UserCreate_names scenario_user_data_def) (simp add: class_defs)

section \<open>The lookup\<close>

text \<open>
  What \<open>get_by_id\<close> returns and what it leaves in the session, by the outcomes of its
  two round trips.
\<close>

lemma foldl_upd_other:
  "k \<notin> fst ` set kvs \<Longrightarrow> foldl (\<lambda>tab (k, u). tab(k \<mapsto> u)) tab kvs k = tab k"
  by (induction kvs arbitrary: tab) (auto split: prod.splits)

lemma flushed_other: "k \<notin> set (new_ids s) \<Longrightarrow> flushed s k = working s k"
  unfolding flushed_def
  by (rule foldl_upd_other) (auto dest: set_zip_leftD)

lemma flushed_keeps:
  assumes "\<not> list_ex (\<lambda>k. working s k \<noteq> None) (new_ids s)" "working s k = Some u"
  shows "flushed s k = Some u"
proof -
  have "k \<notin> set (new_ids s)" using assms by (auto simp: list_ex_iff)
  then show ?thesis using assms(2) by (simp add: flushed_other)
qed

lemma flushed_no_added: "added s = [] \<Longrightarrow> flushed s = working s"
  by (simp add: flushed_def new_ids_def)

lemma round_trip_frame:
  "round_trip c s = (x, s') \<Longrightarrow>
     working s' = working s \<and> committed s' = committed s \<and> added s' = added s \<and>
     next_id s' = next_id s \<and> trace s' = trace s @ [c] \<and> script s' = tl (script s) \<and>
     x = (case script s of [] \<Rightarrow> None | y # ys \<Rightarrow> y)"
  by (auto simp: round_trip_def split: list.splits)

lemma rollback_eq:
  assumes "round_trip Rollback s = (x, t)"
  shows "rollback s =
           (case x of
              Some e \<Rightarrow> (Inl e, t)
            | None \<Rightarrow> (Inr (), t\<lparr>working := committed s, added := []\<rparr>))"
  using assms round_trip_frame[OF assms]
  by (simp add: rollback_def split: option.splits)

lemma except_eq:
  assumes "round_trip Rollback s = (x, t)"
  shows "except_SQLAlchemyError e s =
           (if is_SQLAlchemyError e
            then (case x of
                    Some e' \<Rightarrow> (Inl e', t)
                  | None \<Rightarrow> (Inr None, t\<lparr>working := committed s, added := []\<rparr>))
            else (Inl e, s))"
  by (simp add: except_SQLAlchemyError_def rollback_eq[OF assms] split: option.splits)

lemma except_not_found:
  "except_SQLAlchemyError e s \<noteq> (Inr (Some v), s')"
proof -
  obtain x t where r: "round_trip Rollback s = (x, t)" by (cases "round_trip Rollback s")
  show ?thesis by (simp add: except_eq[OF r] split: option.splits)
qed

text \<open>
  \<open>_fetch_user\<close> hands on what the handler of \<open>_execute_query\<close> returns: \<open>None\<close>
  stays \<open>None\<close> and an exception stays the exception.
\<close>

lemma fetch_except:
  "(case (except_SQLAlchemyError e t :: (exn + user list option) \<times> session) of
      (Inl e, s') \<Rightarrow> (Inl e, s')
    | (Inr None, s') \<Rightarrow> (Inr None, s')
    | (Inr (Some result), s') \<Rightarrow> (Inr (first result), s')) =
   (except_SQLAlchemyError e t :: (exn + user option) \<times> session)"
proof -
  obtain x t' where r: "round_trip Rollback t = (x, t')" by (cases "round_trip Rollback t")
  show ?thesis by (simp add: except_eq[OF r] split: option.splits)
qed

lemma get_by_id_eq:
  assumes r1: "round_trip Execute s = (x1, t1)" and r2: "round_trip Commit t1 = (x2, t2)"
  shows "get_by_id s uid =
           (case x1 of
              Some e \<Rightarrow> except_SQLAlchemyError e t1
            | None \<Rightarrow>
                (case x2 of
                   Some e \<Rightarrow> except_SQLAlchemyError e t2
                 | None \<Rightarrow>
                     if list_ex (\<lambda>k. working s k \<noteq> None) (new_ids s)
                     then except_SQLAlchemyError (SQLAlchemyError ''IntegrityError'') t2
                     else (Inr (working s uid),
                           t2\<lparr>committed := flushed s, working := flushed s, added := [],
                              next_id := next_id s + int (length (added s))\<rparr>)))"
proof -
  note f1 = round_trip_frame[OF r1]
  note f2 = round_trip_frame[OF r2]
  have ids: "new_ids t2 = new_ids s" using f1 f2 by (simp add: new_ids_def)
  have fl: "flushed t2 = flushed s" using f1 f2 ids by (simp add: flushed_def)
  have w: "working t2 = working s" "working t1 = working s" "added t2 = added s"
     "next_id t2 = next_id s"
    using f1 f2 by simp_all
  show ?thesis
  proof (cases x1)
    case (Some e)
    then show ?thesis using r1
      by (simp add: get_by_id_def fetch_user_def execute_query_def execute_def fetch_except)
  next
    case x1: None
    show ?thesis
    proof (cases x2)
      case (Some e)
      then show ?thesis using r1 r2 x1
        by (simp add: get_by_id_def fetch_user_def execute_query_def execute_def commit_def
            fetch_except)
    next
      case x2: None
      show ?thesis
      proof (cases "list_ex (\<lambda>k. working s k \<noteq> None) (new_ids s)")
        case True
        then show ?thesis using r1 r2 x1 x2
          by (simp add: get_by_id_def fetch_user_def execute_query_def execute_def commit_def
              fetch_except ids w)
      next
        case False
        then show ?thesis using r1 r2 x1 x2
          by (simp add: get_by_id_def fetch_user_def execute_query_def execute_def commit_def
              rows_of_def first_def ids fl w split: option.splits)
      qed
    qed
  qed
qed

lemma two_round_trips:
  assumes "round_trip c s = (x1, t1)" "round_trip c' t1 = (x2, t2)"
  shows "x1 = (case script s of [] \<Rightarrow> None | y # ys \<Rightarrow> y)"
    and "x2 = (case script s of [] \<Rightarrow> None | y # ys \<Rightarrow> (case ys of [] \<Rightarrow> None | z # zs \<Rightarrow> z))"
  using assms by (auto simp: round_trip_def split: list.splits)

lemma round_trips_ok_2:
  "round_trips_ok 2 s \<longleftrightarrow>
     (case script s of [] \<Rightarrow> None | y # ys \<Rightarrow> y) = None \<and>
     (case script s of [] \<Rightarrow> None | y # ys \<Rightarrow> (case ys of [] \<Rightarrow> None | z # zs \<Rightarrow> z)) = None"
  by (simp add: round_trips_ok_def numeral_2_eq_2 split: list.splits)

lemma get_by_id_found:
  assumes "get_by_id s uid = (Inr (Some u), s1)"
  shows "working s uid = Some u \<and> working s1 uid = Some u \<and> committed s1 = working s1 \<and>
         added s1 = [] \<and> script s1 = drop 2 (script s) \<and> trace s1 = trace s @ [Execute, Commit]"
proof -
  obtain x1 t1 where r1: "round_trip Execute s = (x1, t1)" by (cases "round_trip Execute s")
  obtain x2 t2 where r2: "round_trip Commit t1 = (x2, t2)" by (cases "round_trip Commit t1")
  note f1 = round_trip_frame[OF r1]
  note f2 = round_trip_frame[OF r2]
  note eq = get_by_id_eq[OF r1 r2, of uid]
  have nf: "(except_SQLAlchemyError e t :: (exn + user option) \<times> session) \<noteq> (Inr (Some u), s1)"
    for e t
    by (rule except_not_found)
  have x1: "x1 = None"
    using assms eq nf by (cases x1) auto
  have x2: "x2 = None"
    using assms eq x1 nf by (cases x2) auto
  have noconf: "\<not> list_ex (\<lambda>k. working s k \<noteq> None) (new_ids s)"
    using assms eq x1 x2 nf by auto
  have s1: "s1 = t2\<lparr>committed := flushed s, working := flushed s, added := [],
                   next_id := next_id s + int (length (added s))\<rparr>"
    and w: "working s uid = Some u"
    using assms eq x1 x2 noconf by simp_all
  have "flushed s uid = Some u" using noconf w by (rule flushed_keeps)
  moreover have "script s1 = drop 2 (script s)"
    using s1 f1 f2 by (simp add: drop_Suc numeral_2_eq_2 drop_tl)
  ultimately show ?thesis using s1 f1 f2 w by simp
qed

lemma get_by_id_ok:
  assumes "lookup_succeeds s"
  shows "fst (get_by_id s uid) = Inr (working s uid)"
proof -
  obtain x1 t1 where r1: "round_trip Execute s = (x1, t1)" by (cases "round_trip Execute s")
  obtain x2 t2 where r2: "round_trip Commit t1 = (x2, t2)" by (cases "round_trip Commit t1")
  have x: "x1 = None" "x2 = None"
    using assms two_round_trips[OF r1 r2] by (simp_all add: lookup_succeeds_def round_trips_ok_2)
  have noconf: "\<not> list_ex (\<lambda>k. working s k \<noteq> None) (new_ids s)"
    using assms by (simp add: lookup_succeeds_def)
  show ?thesis
    using x noconf by (simp add: get_by_id_eq[OF r1 r2])
qed

lemma get_by_id_absent:
  assumes "working s uid = None"
  shows "fst (get_by_id s uid) \<noteq> Inr (Some u)"
  using get_by_id_found[of s uid u "snd (get_by_id s uid)"] assms
  by (cases "get_by_id s uid") auto

text \<open>
  What the handler leaves in the session: the committed table as it was, and either
  the working view and the pending objects as they were (the rollback failed, or the
  exception is not handled) or the committed table with nothing pending.
\<close>

lemma except_frame:
  "committed (snd (except_SQLAlchemyError e t :: (exn + 'a option) \<times> session)) = committed t \<and>
   (working (snd (except_SQLAlchemyError e t :: (exn + 'a option) \<times> session)) = working t \<and>
    added (snd (except_SQLAlchemyError e t :: (exn + 'a option) \<times> session)) = added t \<or>
    working (snd (except_SQLAlchemyError e t :: (exn + 'a option) \<times> session)) = committed t \<and>
    added (snd (except_SQLAlchemyError e t :: (exn + 'a option) \<times> session)) = [])"
proof -
  obtain x t' where r: "round_trip Rollback t = (x, t')" by (cases "round_trip Rollback t")
  show ?thesis
    using round_trip_frame[OF r] by (simp add: except_eq[OF r] split: option.splits)
qed

lemma get_by_id_clean:
  assumes "working s = committed s" "added s = []"
  shows "working (snd (get_by_id s uid)) = working s \<and>
         committed (snd (get_by_id s uid)) = committed s"
proof -
  obtain x1 t1 where r1: "round_trip Execute s = (x1, t1)" by (cases "round_trip Execute s")
  obtain x2 t2 where r2: "round_trip Commit t1 = (x2, t2)" by (cases "round_trip Commit t1")
  note f1 = round_trip_frame[OF r1]
  note f2 = round_trip_frame[OF r2]
  have n: "new_ids s = []" "flushed s = working s"
    using assms(2) by (simp_all add: new_ids_def flushed_no_added)
  have e: "working (snd (except_SQLAlchemyError e t :: (exn + user option) \<times> session)) = working s \<and>
           committed (snd (except_SQLAlchemyError e t :: (exn + user option) \<times> session)) = committed s"
    if "working t = working s" "committed t = committed s" "added t = added s" for e t
    using except_frame[of e t, where 'a = user] that assms by auto
  have e1: "working (snd (except_SQLAlchemyError e t1 :: (exn + user option) \<times> session)) = working s \<and>
           committed (snd (except_SQLAlchemyError e t1 :: (exn + user option) \<times> session)) = committed s" for e
    using f1 by (intro e) simp_all
  have e2: "working (snd (except_SQLAlchemyError e t2 :: (exn + user option) \<times> session)) = working s \<and>
           committed (snd (except_SQLAlchemyError e t2 :: (exn + user option) \<times> session)) = committed s" for e
    using f1 f2 by (intro e) simp_all
  show ?thesis
    unfolding get_by_id_eq[OF r1 r2]
    using e1 e2 n assms by (simp split: option.splits)
qed

section \<open>The upgrade\<close>

text \<open>
  \<open>upgrade_user_to_pro\<close> after a successful lookup, and the flag under any outcome.
\<close>

lemma commit_no_added:
  assumes "added s = []" "round_trip Commit s = (x, t)"
  shows "commit s =
           (case x of
              Some e \<Rightarrow> (Inl e, t)
            | None \<Rightarrow> (Inr (), t\<lparr>committed := working s, working := working s, added := [],
                                 next_id := next_id s\<rparr>))"
proof -
  note f = round_trip_frame[OF assms(2)]
  have "added t = []" using f assms(1) by simp
  then have "new_ids t = []" "flushed t = working s"
    using f by (simp_all add: new_ids_def flushed_no_added)
  then show ?thesis using assms f
    by (simp add: commit_def split: option.splits)
qed

lemma refresh_eq:
  assumes "round_trip Refresh s = (x, t)"
  shows "refresh s k =
           (case x of
              Some e \<Rightarrow> (Inl e, t)
            | None \<Rightarrow>
                (case committed s k of
                   None \<Rightarrow> (Inl (SQLAlchemyError ''InvalidRequestError''), t)
                 | Some u \<Rightarrow> (Inr u, t\<lparr>working := (working s)(k \<mapsto> u)\<rparr>)))"
  using assms round_trip_frame[OF assms]
  by (simp add: refresh_def split: option.splits)

lemma upgrade_found:
  assumes g: "get_by_id s uid = (Inr (Some u), s1)"
    and r3: "round_trip Commit (store s1 uid (u\<lparr>is_pro := True\<rparr>)) = (x3, t3)"
    and r4: "round_trip Refresh
               (t3\<lparr>committed := (working s1)(uid \<mapsto> u\<lparr>is_pro := True\<rparr>),
                   working := (working s1)(uid \<mapsto> u\<lparr>is_pro := True\<rparr>),
                   added := [], next_id := next_id s1\<rparr>) = (x4, t4)"
  shows "upgrade_user_to_pro s uid =
           (case x3 of
              Some e \<Rightarrow> (None, t3)
            | None \<Rightarrow>
                (case x4 of
                   Some e \<Rightarrow> (None, t4)
                 | None \<Rightarrow> (Some (u\<lparr>is_pro := True\<rparr>),
                             t4\<lparr>working := (working s1)(uid \<mapsto> u\<lparr>is_pro := True\<rparr>)\<rparr>)))"
proof -
  note gf = get_by_id_found[OF g]
  let ?s2 = "store s1 uid (u\<lparr>is_pro := True\<rparr>)"
  have a2: "added ?s2 = []" using gf by (simp add: store_def)
  have w2: "working ?s2 = (working s1)(uid \<mapsto> u\<lparr>is_pro := True\<rparr>)" "next_id ?s2 = next_id s1"
    by (simp_all add: store_def)
  note c = commit_no_added[OF a2 r3, unfolded w2]
  show ?thesis
    unfolding upgrade_user_to_pro_def g
    by (simp add: Let_def c refresh_eq[OF r4] split: option.splits)
qed

lemma round_trips_ok_first:
  "round_trips_ok (Suc n) s \<Longrightarrow> round_trip c s = (x, t) \<Longrightarrow> x = None"
  by (auto simp: round_trip_def round_trips_ok_def split: list.splits)

lemma round_trips_ok_next:
  "round_trips_ok (Suc n) s \<Longrightarrow> script t = tl (script s) \<Longrightarrow> round_trips_ok n t"
  by (cases "script s") (auto simp: round_trips_ok_def)

lemma upgrade_succeeds:
  assumes g: "get_by_id s uid = (Inr (Some u), s1)" and ok: "round_trips_ok 2 s1"
  shows "fst (upgrade_user_to_pro s uid) = Some (u\<lparr>is_pro := True\<rparr>)"
    and "working (snd (upgrade_user_to_pro s uid)) uid = Some (u\<lparr>is_pro := True\<rparr>)"
    and "committed (snd (upgrade_user_to_pro s uid)) uid = Some (u\<lparr>is_pro := True\<rparr>)"
    and "added (snd (upgrade_user_to_pro s uid)) = []"
    and "script (snd (upgrade_user_to_pro s uid)) = drop 2 (script s1)"
proof -
  let ?u = "u\<lparr>is_pro := True\<rparr>"
  let ?s2 = "store s1 uid ?u"
  obtain x3 t3 where r3: "round_trip Commit ?s2 = (x3, t3)" by (cases "round_trip Commit ?s2")
  let ?t3 = "t3\<lparr>committed := (working s1)(uid \<mapsto> ?u), working := (working s1)(uid \<mapsto> ?u),
                 added := [], next_id := next_id s1\<rparr>"
  obtain x4 t4 where r4: "round_trip Refresh ?t3 = (x4, t4)" by (cases "round_trip Refresh ?t3")
  note f3 = round_trip_frame[OF r3]
  note f4 = round_trip_frame[OF r4]
  have ok2: "round_trips_ok (Suc (Suc 0)) ?s2" using ok by (simp add: round_trips_ok_def store_def numeral_2_eq_2)
  have x3: "x3 = None" using round_trips_ok_first[OF ok2 r3] .
  have "round_trips_ok (Suc 0) ?t3"
    by (rule round_trips_ok_next[OF ok2]) (simp add: f3)
  then have x4: "x4 = None" using round_trips_ok_first r4 by blast
  have eq: "upgrade_user_to_pro s uid = (Some ?u, t4\<lparr>working := (working s1)(uid \<mapsto> ?u)\<rparr>)"
    using upgrade_found[OF g r3 r4] x3 x4 by simp
  show "fst (upgrade_user_to_pro s uid) = Some ?u" by (simp add: eq)
  show "working (snd (upgrade_user_to_pro s uid)) uid = Some ?u" by (simp add: eq)
  show "committed (snd (upgrade_user_to_pro s uid)) uid = Some ?u" using f4 by (simp add: eq)
  show "added (snd (upgrade_user_to_pro s uid)) = []" using f4 by (simp add: eq)
  show "script (snd (upgrade_user_to_pro s uid)) = drop 2 (script s1)"
    using f4 f3 by (simp add: eq store_def drop_Suc numeral_2_eq_2 drop_tl)
qed

lemma upgrade_Some:
  assumes "fst (upgrade_user_to_pro s uid) = Some u'"
  shows "is_pro u'"
    and "working (snd (upgrade_user_to_pro s uid)) uid = Some u'"
    and "committed (snd (upgrade_user_to_pro s uid)) uid = Some u'"
    and "added (snd (upgrade_user_to_pro s uid)) = []"
proof -
  obtain u s1 where g: "get_by_id s uid = (Inr (Some u), s1)"
    using assms by (auto simp: upgrade_user_to_pro_def split: prod.splits sum.splits option.splits)
  let ?u = "u\<lparr>is_pro := True\<rparr>"
  let ?s2 = "store s1 uid ?u"
  obtain x3 t3 where r3: "round_trip Commit ?s2 = (x3, t3)" by (cases "round_trip Commit ?s2")
  let ?t3 = "t3\<lparr>committed := (working s1)(uid \<mapsto> ?u), working := (working s1)(uid \<mapsto> ?u),
                 added := [], next_id := next_id s1\<rparr>"
  obtain x4 t4 where r4: "round_trip Refresh ?t3 = (x4, t4)" by (cases "round_trip Refresh ?t3")
  note f4 = round_trip_frame[OF r4]
  note e = upgrade_found[OF g r3 r4]
  have x: "x3 = None" "x4 = None" using assms e by (auto split: option.splits)
  have eq: "upgrade_user_to_pro s uid = (Some ?u, t4\<lparr>working := (working s1)(uid \<mapsto> ?u)\<rparr>)"
    using e x by simp
  have u': "u' = ?u" using assms eq by simp
  show "is_pro u'" by (simp add: u')
  show "working (snd (upgrade_user_to_pro s uid)) uid = Some u'" by (simp add: eq u')
  show "committed (snd (upgrade_user_to_pro s uid)) uid = Some u'" using f4 by (simp add: eq u')
  show "added (snd (upgrade_user_to_pro s uid)) = []" using f4 by (simp add: eq)
qed

lemma upgrade_absent:
  assumes "working s uid = None"
  shows "fst (upgrade_user_to_pro s uid) = None"
proof (cases "get_by_id s uid")
  case (Pair r s1)
  have "\<forall>u. r \<noteq> Inr (Some u)"
    using get_by_id_absent[OF assms] Pair by simp
  then show ?thesis using Pair
    by (cases r) (auto simp: upgrade_user_to_pro_def split: option.splits)
qed

lemma get_by_id_preserves_pro:
  assumes "pro_flag_set s uid"
  shows "pro_flag_set (snd (get_by_id s k)) uid"
proof -
  obtain x1 t1 where r1: "round_trip Execute s = (x1, t1)" by (cases "round_trip Execute s")
  obtain x2 t2 where r2: "round_trip Commit t1 = (x2, t2)" by (cases "round_trip Commit t1")
  note f1 = round_trip_frame[OF r1]
  note f2 = round_trip_frame[OF r2]
  have p1: "pro_flag_set t1 uid" "pro_flag_set t2 uid"
    using assms f1 f2 by (simp_all add: pro_flag_set_def)
  have ex: "pro_flag_set (snd (except_SQLAlchemyError e t :: (exn + user option) \<times> session)) uid"
    if "pro_flag_set t uid" for t e
    using that except_frame[of e t, where 'a = user] by (auto simp: pro_flag_set_def)
  have fl: "pro_flag_set (t2\<lparr>committed := flushed s, working := flushed s, added := [],
                              next_id := n\<rparr>) uid"
    if "\<not> list_ex (\<lambda>k. working s k \<noteq> None) (new_ids s)" for n
  proof -
    obtain w where w: "working s uid = Some w" "is_pro w"
      using assms by (auto simp: pro_flag_set_def split: option.splits)
    have "flushed s uid = Some w" using that w(1) by (rule flushed_keeps)
    then show ?thesis using w(2) by (simp add: pro_flag_set_def)
  qed
  show ?thesis
    unfolding get_by_id_eq[OF r1 r2]
    using ex[OF p1(1)] ex[OF p1(2)] fl
    by (simp split: option.splits)
qed

lemma upgrade_preserves_pro:
  assumes "pro_flag_set s uid"
  shows "pro_flag_set (snd (upgrade_user_to_pro s uid)) uid"
proof (cases "get_by_id s uid")
  case (Pair r s1)
  have p1: "pro_flag_set s1 uid" using get_by_id_preserves_pro[OF assms, of uid] Pair by simp
  show ?thesis
  proof (cases r)
    case (Inl e)
    then show ?thesis using Pair p1 by (simp add: upgrade_user_to_pro_def)
  next
    case (Inr found)
    show ?thesis
    proof (cases found)
      case None
      then show ?thesis using Pair Inr p1 by (simp add: upgrade_user_to_pro_def)
    next
      case (Some u)
      then have g: "get_by_id s uid = (Inr (Some u), s1)" using Pair Inr by simp
      note gf = get_by_id_found[OF g]
      let ?u = "u\<lparr>is_pro := True\<rparr>"
      let ?s2 = "store s1 uid ?u"
      obtain x3 t3 where r3: "round_trip Commit ?s2 = (x3, t3)" by (cases "round_trip Commit ?s2")
      let ?t3 = "t3\<lparr>committed := (working s1)(uid \<mapsto> ?u), working := (working s1)(uid \<mapsto> ?u),
                     added := [], next_id := next_id s1\<rparr>"
      obtain x4 t4 where r4: "round_trip Refresh ?t3 = (x4, t4)" by (cases "round_trip Refresh ?t3")
      note f3 = round_trip_frame[OF r3]
      note f4 = round_trip_frame[OF r4]
      have "is_pro u" using assms gf by (simp add: pro_flag_set_def)
      then have q3: "pro_flag_set t3 uid"
        using f3 gf by (simp add: pro_flag_set_def store_def)
      have q4: "pro_flag_set t4 uid" using f4 by (simp add: pro_flag_set_def)
      have q5: "pro_flag_set (t4\<lparr>working := (working s1)(uid \<mapsto> ?u)\<rparr>) uid"
        using f4 by (simp add: pro_flag_set_def)
      show ?thesis
        unfolding upgrade_found[OF g r3 r4] using q3 q4 q5
        by (simp split: option.splits)
    qed
  qed
qed

section \<open>The profile update\<close>

text \<open>
  \<open>update_user_profile\<close> after a successful lookup.
\<close>

lemma store_store: "store (store s k a) k b = store s k b"
  by (simp add: store_def)

lemma update_found:
  assumes g: "get_by_id s uid = (Inr (Some u), s1)"
    and a: "getattr upd ''github_link'' = Inr gh" "getattr upd ''linkedin_link'' = Inr li"
      "getattr upd ''profile_photo_url'' = Inr ph"
    and u3: "u3 = u\<lparr>github_link := py_or gh (github_link u),
                     linkedin_link := py_or li (linkedin_link u),
                     profile_photo_url := py_or ph (profile_photo_url u)\<rparr>"
    and r5: "round_trip Commit (store s1 uid u3) = (x5, t5)"
    and r6: "round_trip Refresh
               (t5\<lparr>committed := (working s1)(uid \<mapsto> u3), working := (working s1)(uid \<mapsto> u3),
                   added := [], next_id := next_id s1\<rparr>) = (x6, t6)"
  shows "update_user_profile s uid upd =
           (case x5 of
              Some e \<Rightarrow> (None, t5)
            | None \<Rightarrow>
                (case x6 of
                   Some e \<Rightarrow> (None, t6)
                 | None \<Rightarrow> (Some u3, t6\<lparr>working := (working s1)(uid \<mapsto> u3)\<rparr>)))"
proof -
  note gf = get_by_id_found[OF g]
  let ?s4 = "store s1 uid u3"
  have a4: "added ?s4 = []" using gf by (simp add: store_def)
  have w4: "working ?s4 = (working s1)(uid \<mapsto> u3)" "next_id ?s4 = next_id s1"
    by (simp_all add: store_def)
  note c = commit_no_added[OF a4 r5, unfolded w4]
  show ?thesis
    unfolding update_user_profile_def g
    by (simp add: Let_def a store_store u3[symmetric] c refresh_eq[OF r6] split: option.splits)
qed

lemma frame_ok_refl: "frame_ok upd u u"
  by (simp add: frame_ok_def)

lemma update_frame_aux:
  assumes g: "get_by_id s uid = (Inr (Some u), s1)"
  shows "\<exists>w c. working (snd (update_user_profile s uid upd)) uid = Some w \<and>
               committed (snd (update_user_profile s uid upd)) uid = Some c \<and>
               frame_ok upd u w \<and> frame_ok upd u c \<and>
               (\<forall>x. fst (update_user_profile s uid upd) = Some x \<longrightarrow>
                  x = w \<and> x = c \<and>
                  (\<exists>gh li ph.
                     getattr upd ''github_link'' = Inr gh \<and>
                     getattr upd ''linkedin_link'' = Inr li \<and>
                     getattr upd ''profile_photo_url'' = Inr ph \<and>
                     x = u\<lparr>github_link := py_or gh (github_link u),
                           linkedin_link := py_or li (linkedin_link u),
                           profile_photo_url := py_or ph (profile_photo_url u)\<rparr>))"
    (is "\<exists>w c. ?P w c")
proof -
  note gf = get_by_id_found[OF g]
  have c1: "committed s1 uid = Some u" using gf by simp
  show ?thesis
  proof (cases "getattr upd ''github_link''")
    case (Inl e)
    then have "update_user_profile s uid upd = (None, s1)"
      by (simp add: update_user_profile_def g)
    then have "?P u u" using gf c1 by (simp add: frame_ok_refl)
    then show ?thesis by blast
  next
    case gh: (Inr gh)
    define u1 where "u1 = u\<lparr>github_link := py_or gh (github_link u)\<rparr>"
    have fr1: "frame_ok upd u u1"
      using gh by (simp add: frame_ok_def u1_def attr_truthy_def py_or_def)
    show ?thesis
    proof (cases "getattr upd ''linkedin_link''")
      case (Inl e)
      then have "update_user_profile s uid upd = (None, store s1 uid u1)"
        by (simp add: update_user_profile_def g gh u1_def Let_def)
      then have "?P u1 u" using c1 fr1 by (simp add: frame_ok_refl store_def)
      then show ?thesis by blast
    next
      case li: (Inr li)
      define u2 where "u2 = u1\<lparr>linkedin_link := py_or li (linkedin_link u1)\<rparr>"
      have fr2: "frame_ok upd u u2"
        using gh li by (simp add: frame_ok_def u1_def u2_def attr_truthy_def py_or_def)
      show ?thesis
      proof (cases "getattr upd ''profile_photo_url''")
        case (Inl e)
        then have "update_user_profile s uid upd = (None, store s1 uid u2)"
          by (simp add: update_user_profile_def g gh li u1_def u2_def Let_def store_store)
        then have "?P u2 u" using c1 fr2 by (simp add: frame_ok_refl store_def)
        then show ?thesis by blast
      next
        case ph: (Inr ph)
        define u3 where "u3 = u\<lparr>github_link := py_or gh (github_link u),
                     linkedin_link := py_or li (linkedin_link u),
                     profile_photo_url := py_or ph (profile_photo_url u)\<rparr>"
        have fr3: "frame_ok upd u u3"
          using gh li ph by (simp add: frame_ok_def u3_def attr_truthy_def py_or_def)
        let ?s4 = "store s1 uid u3"
        obtain x5 t5 where r5: "round_trip Commit ?s4 = (x5, t5)"
          by (cases "round_trip Commit ?s4")
        let ?t5 = "t5\<lparr>committed := (working s1)(uid \<mapsto> u3), working := (working s1)(uid \<mapsto> u3),
                   added := [], next_id := next_id s1\<rparr>"
        obtain x6 t6 where r6: "round_trip Refresh ?t5 = (x6, t6)"
          by (cases "round_trip Refresh ?t5")
        note f5 = round_trip_frame[OF r5]
        note f6 = round_trip_frame[OF r6]
        note eq = update_found[OF g gh li ph u3_def r5 r6]
        show ?thesis
        proof (cases x5)
          case (Some e)
          then have "update_user_profile s uid upd = (None, t5)" using eq by simp
          then have "?P u3 u" using f5 c1 fr3 by (simp add: frame_ok_refl store_def)
          then show ?thesis by blast
        next
          case x5: None
          show ?thesis
          proof (cases x6)
            case (Some e)
            then have "update_user_profile s uid upd = (None, t6)" using eq x5 by simp
            then have "?P u3 u3" using f6 fr3 by simp
            then show ?thesis by blast
          next
            case None
            then have "update_user_profile s uid upd =
                         (Some u3, t6\<lparr>working := (working s1)(uid \<mapsto> u3)\<rparr>)"
              using eq x5 by simp
            then have "?P u3 u3" using f6 fr3 gh li ph by (simp add: u3_def)
            then show ?thesis by blast
          qed
        qed
      qed
    qed
  qed
qed

lemma import_UserUpdate: "import_name ''UserUpdate'' = Inr UserUpdate_2"
  by (simp add: import_name_def module_namespace_def class_statements_def)

section \<open>The example session\<close>

lemma lookup_demo: "lookup_succeeds demo_session"
  by (simp add: lookup_succeeds_def round_trips_ok_def demo_session_def new_ids_def)

lemma get_demo: "fst (get_by_id demo_session 1) = Inr (Some demo_user)"
  using get_by_id_ok[OF lookup_demo, of 1] by (simp add: demo_session_def)

section \<open>Creating a user\<close>

text \<open>
  C1. The claim: for every \<open>UserCreate\<close> input, a successful \<open>create_user\<close> stores the
  default role, hashes the password, and always produces a verification token and a
  nickname. On the scenario of the specification (email \<open>a@b.com\<close>, password
  \<open>Secure*1234\<close>, role \<open>USER\<close>) the schema accepts the input, and \<open>create_user\<close>
  returns \<open>None\<close> and leaves the session as it was, whatever the helpers and the
  session are: nothing is stored and nothing is produced.
\<close>

theorem create_user_scenario:
  "construct accept UserCreate scenario_input = Inr scenario_user_data \<and>
   create_user h s scenario_user_data = (None, s)"
  using construct_scenario new_user_of_UserCreate[OF scenario_instance, of h]
  by (auto simp: create_user_def)

text \<open>
  C2. For every instance of \<open>UserCreate\<close>, \<open>create_user\<close> returns \<open>None\<close> and the
  session is unchanged, so no entity is added or inserted: the attributes
  \<open>github_link\<close>, \<open>linkedin_link\<close> and \<open>profile_photo_url\<close> that the constructor call
  reads are not attributes of the instance, and reading the first of them raises
  \<open>AttributeError\<close> before \<open>session.add\<close> is reached.
\<close>

theorem create_user_UserCreate_returns_None:
  assumes "instance_of UserCreate user_data"
  shows "create_user h s user_data = (None, s) \<and>
         getattr user_data ''github_link'' = Inl (AttributeError ''github_link'') \<and>
         getattr user_data ''linkedin_link'' = Inl (AttributeError ''linkedin_link'') \<and>
         getattr user_data ''profile_photo_url'' = Inl (AttributeError ''profile_photo_url'')"
proof -
  have names: "map fst (ob_dict user_data) = map fname (cfields UserCreate)"
    using assms by (simp add: instance_of_def)
  have "''github_link'' \<notin> set (map fst (ob_dict user_data))"
    "''linkedin_link'' \<notin> set (map fst (ob_dict user_data))"
    "''profile_photo_url'' \<notin> set (map fst (ob_dict user_data))"
    unfolding names UserCreate_names by simp_all
  then have a: "getattr user_data ''github_link'' = Inl (AttributeError ''github_link'')"
    "getattr user_data ''linkedin_link'' = Inl (AttributeError ''linkedin_link'')"
    "getattr user_data ''profile_photo_url'' = Inl (AttributeError ''profile_photo_url'')"
    by (simp_all add: getattr_absent)
  obtain e where "new_user_of h user_data = Inl e"
    using new_user_of_UserCreate[OF assms] by blast
  then have "create_user h s user_data = (None, s)" by (simp add: create_user_def)
  then show ?thesis using a by simp
qed

text \<open>
  The instance built from the scenario's input, to which a \<open>github_link\<close> was added
  (the schema ignores the key): \<open>create_user\<close> returns \<open>None\<close> on it.
\<close>

theorem create_user_UserCreate_witness:
  "construct accept UserCreate
     (scenario_input @ [(''github_link'', PStr (str ''https://github.com/ab''))]) =
     Inr scenario_user_data \<and>
   instance_of UserCreate scenario_user_data \<and>
   create_user demo_helpers demo_session scenario_user_data = (None, demo_session)"
proof -
  have c: "construct accept UserCreate
     (scenario_input @ [(''github_link'', PStr (str ''https://github.com/ab''))]) =
     Inr scenario_user_data"
    by (simp add: construct_def class_defs scenario_input_def scenario_user_data_def
      validate_field_def validators_for_def check_type_def accept_def)
  show ?thesis
    using c scenario_instance
      create_user_UserCreate_returns_None[OF scenario_instance, of demo_helpers demo_session]
    by simp
qed

section \<open>The schemas\<close>

text \<open>
  C5. \<open>validate_url\<close> returns \<open>None\<close> as it is; it returns every string that matches
  the pattern (the strings of \<open>url_shape\<close>, which the matcher accepts) unchanged; and
  on every other string it raises \<open>ValueError\<close> with the text \<open>Invalid URL format\<close>.
\<close>

theorem validate_url_spec:
  "validate_url PNone = Inr PNone \<and>
   (url_shape s \<longrightarrow> re_match url_regex s \<and> validate_url (PStr s) = Inr (PStr s)) \<and>
   (\<not> url_shape s \<longrightarrow>
      \<not> re_match url_regex s \<and> validate_url (PStr s) = Inl (ValueError ''Invalid URL format''))"
  by (simp add: validate_url_def url_regex_match_iff)

text \<open>An \<open>https\<close> address passes, an \<open>ftp\<close> address is refused.\<close>

theorem validate_url_witness:
  "url_shape (str ''https://example.com'') \<and>
   validate_url (PStr (str ''https://example.com'')) = Inr (PStr (str ''https://example.com'')) \<and>
   \<not> url_shape (str ''ftp://example.com'') \<and>
   validate_url (PStr (str ''ftp://example.com'')) = Inl (ValueError ''Invalid URL format'')"
proof -
  have a: "url_shape (str ''https://example.com'')"
    unfolding url_regex_match_iff[symmetric]
    by (simp add: re_match_def url_regex_def lit_def str_def is_space_def)
  have b: "\<not> url_shape (str ''ftp://example.com'')"
    unfolding url_regex_match_iff[symmetric]
    by (simp add: re_match_def url_regex_def lit_def str_def is_space_def)
  show ?thesis
    using a b validate_url_spec[of "str ''https://example.com''"]
      validate_url_spec[of "str ''ftp://example.com''"]
    by blast
qed

text \<open>
  C6. Under the first definition of \<open>UserUpdate\<close>, with its root validator
  \<open>check_at_least_one_value\<close>: when no submitted value is truthy (nothing is submitted,
  or every value is falsy) the construction fails with the validation error
  \<open>At least one field must be provided for update\<close>, for any type check; when at
  least one submitted value is truthy the check passes and hands the values on.
\<close>

theorem UserUpdate_1_at_least_one_field:
  "root_pre UserUpdate_1 = [check_at_least_one_value] \<and>
   (\<not> list_ex truthy (map snd values) \<longrightarrow>
      construct tv UserUpdate_1 values =
        Inl (ValidationError [(''__root__'', ''At least one field must be provided for update'')])) \<and>
   (list_ex truthy (map snd values) \<longrightarrow>
      check_at_least_one_value values = Inr values \<and>
      run_all (root_pre UserUpdate_1) values = Inr values)"
proof -
  have r: "root_pre UserUpdate_1 = [check_at_least_one_value]" by (simp add: class_defs)
  show ?thesis
    by (simp add: r construct_def check_at_least_one_value_def)
qed

text \<open>
  An empty string, \<open>None\<close> and \<open>0\<close> together are refused, and so is the empty
  payload; a payload with one name in it passes the check.
\<close>

theorem UserUpdate_1_at_least_one_field_witness:
  "construct accept UserUpdate_1 [(''bio'', PStr []), (''first_name'', PNone), (''nickname'', PInt 0)] =
     Inl (ValidationError [(''__root__'', ''At least one field must be provided for update'')]) \<and>
   construct accept UserUpdate_1 [] =
     Inl (ValidationError [(''__root__'', ''At least one field must be provided for update'')]) \<and>
   check_at_least_one_value [(''bio'', PStr []), (''first_name'', PStr (str ''John''))] =
     Inr [(''bio'', PStr []), (''first_name'', PStr (str ''John''))]"
  using UserUpdate_1_at_least_one_field[of "[(''bio'', PStr []), (''first_name'', PNone), (''nickname'', PInt 0)]" accept]
    UserUpdate_1_at_least_one_field[of "[]" accept]
    UserUpdate_1_at_least_one_field[of "[(''bio'', PStr []), (''first_name'', PStr (str ''John''))]" accept]
  by (simp add: str_def)

text \<open>
  C7. The name \<open>UserUpdate\<close> of the module is bound to the second definition, which
  is not the first. Its fields are \<open>email\<close>, \<open>name\<close>, \<open>bio\<close>, \<open>location\<close>,
  \<open>password\<close>, \<open>linkedin_profile_url\<close> and \<open>github_profile_url\<close>, it has no root
  validator, and constructing it with every field absent succeeds with every field
  \<open>None\<close>, where the first definition raises its validation error.
\<close>

theorem UserUpdate_shadowed:
  "import_name ''UserUpdate'' = Inr UserUpdate_2 \<and>
   UserUpdate_2 \<noteq> UserUpdate_1 \<and>
   map fname (cfields UserUpdate_2) =
     [''email'', ''name'', ''bio'', ''location'', ''password'', ''linkedin_profile_url'',
      ''github_profile_url''] \<and>
   root_pre UserUpdate_2 = [] \<and>
   construct tv UserUpdate_2 [] =
     Inr \<lparr>ob_class = ''UserUpdate'',
          ob_dict = [(''email'', PNone), (''name'', PNone), (''bio'', PNone),
                     (''location'', PNone), (''password'', PNone),
                     (''linkedin_profile_url'', PNone), (''github_profile_url'', PNone)]\<rparr> \<and>
   construct tv UserUpdate_1 [] =
     Inl (ValidationError [(''__root__'', ''At least one field must be provided for update'')])"
proof -
  have "map fname (cfields UserUpdate_2) \<noteq> map fname (cfields UserUpdate_1)"
    unfolding UserUpdate_2_names UserUpdate_1_names by simp
  then have ne: "UserUpdate_2 \<noteq> UserUpdate_1" by auto
  have r: "root_pre UserUpdate_2 = []" by (simp add: class_defs)
  have c2: "construct tv UserUpdate_2 [] =
     Inr \<lparr>ob_class = ''UserUpdate'',
          ob_dict = [(''email'', PNone), (''name'', PNone), (''bio'', PNone),
                     (''location'', PNone), (''password'', PNone),
                     (''linkedin_profile_url'', PNone), (''github_profile_url'', PNone)]\<rparr>"
    by (simp add: construct_def class_defs validate_field_def validators_for_def check_type_def
        strip_whitespace_def)
  have c1: "construct tv UserUpdate_1 [] =
     Inl (ValidationError [(''__root__'', ''At least one field must be provided for update'')])"
    by (simp add: construct_def class_defs check_at_least_one_value_def)
  show ?thesis using import_UserUpdate ne UserUpdate_2_names r c2 c1 by simp
qed

text \<open>The same with the type check that accepts every value.\<close>

theorem UserUpdate_shadowed_witness:
  "import_name ''UserUpdate'' = Inr UserUpdate_2 \<and>
   construct accept UserUpdate_2 [] =
     Inr \<lparr>ob_class = ''UserUpdate'',
          ob_dict = [(''email'', PNone), (''name'', PNone), (''bio'', PNone),
                     (''location'', PNone), (''password'', PNone),
                     (''linkedin_profile_url'', PNone), (''github_profile_url'', PNone)]\<rparr>"
  using UserUpdate_shadowed[of accept] by simp

text \<open>
  C10. The fields of \<open>UserResponse\<close> are the fields of \<open>UserBase\<close> followed by
  \<open>id\<close>, \<open>is_professional\<close> (the pro-status), \<open>created_at\<close> and \<open>updated_at\<close>;
  \<open>password\<close> and \<open>hashed_password\<close> are not among them; and every response built
  from an entity has exactly these fields as attributes, so that reading its
  \<open>password\<close> or \<open>hashed_password\<close> raises \<open>AttributeError\<close>.
\<close>

theorem UserResponse_fields:
  "map fname (cfields UserResponse) =
     map fname (cfields UserBase) @ [''id'', ''is_professional'', ''created_at'', ''updated_at''] \<and>
   ''password'' \<notin> set (map fname (cfields UserResponse)) \<and>
   ''hashed_password'' \<notin> set (map fname (cfields UserResponse)) \<and>
   (model_validate tv UserResponse entity = Inr r \<longrightarrow>
      map fst (ob_dict r) = map fname (cfields UserResponse) \<and>
      getattr r ''password'' = Inl (AttributeError ''password'') \<and>
      getattr r ''hashed_password'' = Inl (AttributeError ''hashed_password''))"
proof -
  have a: "map fname (cfields UserResponse) =
     map fname (cfields UserBase) @ [''id'', ''is_professional'', ''created_at'', ''updated_at'']"
    by (simp add: UserResponse_names UserBase_names)
  have b: "''password'' \<notin> set (map fname (cfields UserResponse))"
    "''hashed_password'' \<notin> set (map fname (cfields UserResponse))"
    unfolding UserResponse_names by simp_all
  have c: "map fst (ob_dict r) = map fname (cfields UserResponse) \<and>
      getattr r ''password'' = Inl (AttributeError ''password'') \<and>
      getattr r ''hashed_password'' = Inl (AttributeError ''hashed_password'')"
    if "model_validate tv UserResponse entity = Inr r"
  proof -
    have "instance_of UserResponse r"
      using that unfolding model_validate_def by (rule construct_instance_of)
    then have n: "map fst (ob_dict r) = map fname (cfields UserResponse)"
      by (simp add: instance_of_def)
    show ?thesis using n b by (simp add: getattr_absent)
  qed
  show ?thesis using a b c by blast
qed

text \<open>
  The response built from an entity that carries a hashed password does not carry it.
\<close>

theorem UserResponse_fields_witness:
  "model_validate accept UserResponse demo_entity =
     Inr \<lparr>ob_class = ''UserResponse'',
          ob_dict = [(''email'', PStr (str ''a@b.com'')), (''nickname'', PStr (str ''ab'')),
                     (''first_name'', PNone), (''last_name'', PNone), (''bio'', PNone),
                     (''profile_picture_url'', PNone), (''linkedin_profile_url'', PNone),
                     (''github_profile_url'', PNone), (''role'', PStr (str ''USER'')),
                     (''id'', PInt 1), (''is_professional'', PBool True),
                     (''created_at'', PStr (str ''2023-01-01'')),
                     (''updated_at'', PStr (str ''2023-01-02''))]\<rparr> \<and>
   getattr demo_entity ''hashed_password'' = Inr (PStr (str ''hashed'')) \<and>
   (\<exists>r. model_validate accept UserResponse demo_entity = Inr r \<and>
        getattr r ''hashed_password'' = Inl (AttributeError ''hashed_password'') \<and>
        getattr r ''password'' = Inl (AttributeError ''password''))"
proof -
  have m: "model_validate accept UserResponse demo_entity =
     Inr \<lparr>ob_class = ''UserResponse'',
          ob_dict = [(''email'', PStr (str ''a@b.com'')), (''nickname'', PStr (str ''ab'')),
                     (''first_name'', PNone), (''last_name'', PNone), (''bio'', PNone),
                     (''profile_picture_url'', PNone), (''linkedin_profile_url'', PNone),
                     (''github_profile_url'', PNone), (''role'', PStr (str ''USER'')),
                     (''id'', PInt 1), (''is_professional'', PBool True),
                     (''created_at'', PStr (str ''2023-01-01'')),
                     (''updated_at'', PStr (str ''2023-01-02''))]\<rparr>"
    by (simp add: model_validate_def construct_def class_defs demo_entity_def
      validate_field_def validators_for_def check_type_def accept_def)
  have g: "getattr demo_entity ''hashed_password'' = Inr (PStr (str ''hashed''))"
    by (simp add: getattr_def demo_entity_def)
  show ?thesis
    using m g UserResponse_fields[of accept demo_entity]
    by simp
qed

section \<open>Looking a user up\<close>

lemma found_pair:
  "fst (get_by_id s uid) = Inr (Some u) \<Longrightarrow>
   get_by_id s uid = (Inr (Some u), snd (get_by_id s uid))"
  by (cases "get_by_id s uid") simp

lemma round_trips_ok_mono:
  "round_trips_ok n s \<Longrightarrow> m \<le> n \<Longrightarrow> round_trips_ok m s"
  unfolding round_trips_ok_def list_all_iff
  using set_take_subset_set_take[of m n "script s"] by blast

lemma round_trips_ok_drop:
  "round_trips_ok (m + n) s \<Longrightarrow> script t = drop m (script s) \<Longrightarrow> round_trips_ok n t"
  by (simp add: round_trips_ok_def take_add)

text \<open>
  The lookup by the shape of the script: which exception it meets, and what the handler
  of \<open>_execute_query\<close> makes of it.
\<close>

lemma round_trip_Nil:
  "script s = [] \<Longrightarrow> round_trip c s = (None, s\<lparr>trace := trace s @ [c]\<rparr>)"
  by (simp add: round_trip_def)

lemma round_trip_Cons:
  "script s = y # ys \<Longrightarrow> round_trip c s = (y, s\<lparr>script := ys, trace := trace s @ [c]\<rparr>)"
  by (simp add: round_trip_def)

lemma round_trip_next:
  "round_trip c s = (x, t) \<Longrightarrow> x = next_outcome (script s)"
  by (auto simp: round_trip_def next_outcome_def split: list.splits)

lemma lookup_failure_None: "lookup_failure s = None \<longleftrightarrow> lookup_succeeds s"
  by (auto simp: lookup_failure_def lookup_succeeds_def round_trips_ok_def numeral_2_eq_2
      split: list.splits option.splits)

lemma get_by_id_failure:
  assumes "lookup_failure s = Some e"
  shows "\<exists>t. get_by_id s uid = (except_SQLAlchemyError e t :: (exn + user option) \<times> session) \<and>
             committed t = committed s \<and> next_outcome (script t) = rollback_outcome s"
proof (cases "script s")
  case Nil
  let ?t1 = "s\<lparr>trace := trace s @ [Execute]\<rparr>"
  let ?t2 = "?t1\<lparr>trace := trace ?t1 @ [Commit]\<rparr>"
  have r1: "round_trip Execute s = (None, ?t1)" using Nil by (rule round_trip_Nil)
  have r2: "round_trip Commit ?t1 = (None, ?t2)" by (rule round_trip_Nil) (simp add: Nil)
  have c: "list_ex (\<lambda>k. working s k \<noteq> None) (new_ids s)" "e = SQLAlchemyError ''IntegrityError''"
    using assms Nil by (auto simp: lookup_failure_def split: if_splits)
  have "get_by_id s uid = except_SQLAlchemyError e ?t2"
    using c by (simp add: get_by_id_eq[OF r1 r2])
  moreover have "next_outcome (script ?t2) = rollback_outcome s"
    using Nil by (simp add: next_outcome_def rollback_outcome_def)
  ultimately show ?thesis by (intro exI[of _ ?t2]) simp
next
  case (Cons y ys)
  let ?t1 = "s\<lparr>script := ys, trace := trace s @ [Execute]\<rparr>"
  have r1: "round_trip Execute s = (y, ?t1)" using Cons by (rule round_trip_Cons)
  show ?thesis
  proof (cases y)
    case (Some e')
    obtain x2 t2 where r2: "round_trip Commit ?t1 = (x2, t2)" by (cases "round_trip Commit ?t1")
    have e: "e = e'" using assms Cons Some by (simp add: lookup_failure_def)
    have "get_by_id s uid = except_SQLAlchemyError e ?t1"
      using get_by_id_eq[OF r1 r2, of uid] Some e by simp
    moreover have "next_outcome (script ?t1) = rollback_outcome s"
      using Cons Some by (simp add: rollback_outcome_def)
    ultimately show ?thesis by (intro exI[of _ ?t1]) simp
  next
    case y: None
    show ?thesis
    proof (cases ys)
      case Nil
      let ?t2 = "?t1\<lparr>trace := trace ?t1 @ [Commit]\<rparr>"
      have r2: "round_trip Commit ?t1 = (None, ?t2)" by (rule round_trip_Nil) (simp add: Nil)
      have c: "list_ex (\<lambda>k. working s k \<noteq> None) (new_ids s)"
        "e = SQLAlchemyError ''IntegrityError''"
        using assms Cons y Nil by (auto simp: lookup_failure_def split: if_splits)
      have "get_by_id s uid = except_SQLAlchemyError e ?t2"
        using c y by (simp add: get_by_id_eq[OF r1 r2])
      moreover have "next_outcome (script ?t2) = rollback_outcome s"
        using Cons y Nil by (simp add: next_outcome_def rollback_outcome_def)
      ultimately show ?thesis by (intro exI[of _ ?t2]) simp
    next
      case ys: (Cons z zs)
      let ?t2 = "?t1\<lparr>script := zs, trace := trace ?t1 @ [Commit]\<rparr>"
      have r2: "round_trip Commit ?t1 = (z, ?t2)" by (rule round_trip_Cons) (simp add: ys)
      show ?thesis
      proof (cases z)
        case (Some e')
        have e: "e = e'" using assms Cons y ys Some by (simp add: lookup_failure_def)
        have "get_by_id s uid = except_SQLAlchemyError e ?t2"
          using y Some e by (simp add: get_by_id_eq[OF r1 r2])
        moreover have "next_outcome (script ?t2) = rollback_outcome s"
          using Cons y ys Some by (simp add: rollback_outcome_def)
        ultimately show ?thesis by (intro exI[of _ ?t2]) simp
      next
        case z: None
        have c: "list_ex (\<lambda>k. working s k \<noteq> None) (new_ids s)"
          "e = SQLAlchemyError ''IntegrityError''"
          using assms Cons y ys z by (auto simp: lookup_failure_def split: if_splits)
        have "get_by_id s uid = except_SQLAlchemyError e ?t2"
          using c y z by (simp add: get_by_id_eq[OF r1 r2])
        moreover have "next_outcome (script ?t2) = rollback_outcome s"
          using Cons y ys z by (simp add: rollback_outcome_def)
        ultimately show ?thesis by (intro exI[of _ ?t2]) simp
      qed
    qed
  qed
qed

lemma get_by_id_handled:
  assumes "lookup_failure s = Some e" "is_SQLAlchemyError e" "rollback_outcome s = None"
  shows "fst (get_by_id s uid) = Inr None \<and>
         last (trace (snd (get_by_id s uid))) = Rollback \<and>
         working (snd (get_by_id s uid)) = committed s \<and>
         committed (snd (get_by_id s uid)) = committed s \<and>
         added (snd (get_by_id s uid)) = []"
proof -
  obtain t where t: "get_by_id s uid = except_SQLAlchemyError e t" "committed t = committed s"
    "next_outcome (script t) = rollback_outcome s"
    using get_by_id_failure[OF assms(1)] by blast
  obtain x t' where r: "round_trip Rollback t = (x, t')" by (cases "round_trip Rollback t")
  have x: "x = None" using round_trip_next[OF r] t(3) assms(3) by simp
  show ?thesis
    using round_trip_frame[OF r] t(2) assms(2) x by (simp add: t(1) except_eq[OF r])
qed

lemma get_by_id_rollback_fails:
  assumes "lookup_failure s = Some e" "is_SQLAlchemyError e" "rollback_outcome s = Some e'"
  shows "fst (get_by_id s uid) = Inl e'"
proof -
  obtain t where t: "get_by_id s uid = except_SQLAlchemyError e t"
    "next_outcome (script t) = rollback_outcome s"
    using get_by_id_failure[OF assms(1)] by blast
  obtain x t' where r: "round_trip Rollback t = (x, t')" by (cases "round_trip Rollback t")
  have x: "x = Some e'" using round_trip_next[OF r] t(2) assms(3) by simp
  show ?thesis using assms(2) x by (simp add: t(1) except_eq[OF r])
qed

lemma get_by_id_propagates:
  assumes "lookup_failure s = Some e" "\<not> is_SQLAlchemyError e"
  shows "fst (get_by_id s uid) = Inl e"
proof -
  obtain t where t: "get_by_id s uid = except_SQLAlchemyError e t"
    using get_by_id_failure[OF assms(1)] by blast
  show ?thesis using assms(2) by (simp add: t except_SQLAlchemyError_def)
qed

text \<open>
  C9. As amended. For every user id: a user that \<open>get_by_id\<close> returns is the row stored
  under exactly that primary key; when the lookup goes through it returns the row
  under that key, which is \<open>None\<close> when no user has that id. When \<open>execute\<close> or
  \<open>commit\<close> raises a \<open>SQLAlchemyError\<close> and the rollback succeeds, it returns \<open>None\<close>,
  the last call on the session is the rollback, and the session is back at the
  committed table with nothing pending; so it never raises as long as the database
  layer raises nothing but \<open>SQLAlchemyError\<close> and the rollback succeeds. An exception
  of any other class raised by \<open>execute\<close> or \<open>commit\<close> leaves \<open>get_by_id\<close> as it is,
  and so does an exception raised by the rollback.
\<close>

theorem get_by_id_spec:
  "(\<forall>u. fst (get_by_id s user_id) = Inr (Some u) \<longrightarrow> working s user_id = Some u) \<and>
   (lookup_succeeds s \<longrightarrow> fst (get_by_id s user_id) = Inr (working s user_id)) \<and>
   (lookup_succeeds s \<and> working s user_id = None \<longrightarrow> fst (get_by_id s user_id) = Inr None) \<and>
   (\<not> lookup_succeeds s \<longrightarrow> (\<exists>e. lookup_failure s = Some e)) \<and>
   (\<forall>e. lookup_failure s = Some e \<and> is_SQLAlchemyError e \<and> rollback_outcome s = None \<longrightarrow>
      fst (get_by_id s user_id) = Inr None \<and>
      last (trace (snd (get_by_id s user_id))) = Rollback \<and>
      working (snd (get_by_id s user_id)) = committed s \<and>
      committed (snd (get_by_id s user_id)) = committed s \<and>
      added (snd (get_by_id s user_id)) = []) \<and>
   ((\<forall>e. lookup_failure s = Some e \<longrightarrow> is_SQLAlchemyError e) \<and> rollback_outcome s = None \<longrightarrow>
      (\<exists>r. fst (get_by_id s user_id) = Inr r)) \<and>
   (\<forall>e. lookup_failure s = Some e \<and> \<not> is_SQLAlchemyError e \<longrightarrow>
      fst (get_by_id s user_id) = Inl e) \<and>
   (\<forall>e e'. lookup_failure s = Some e \<and> is_SQLAlchemyError e \<and> rollback_outcome s = Some e' \<longrightarrow>
      fst (get_by_id s user_id) = Inl e')"
proof -
  have f: "working s user_id = Some u" if "fst (get_by_id s user_id) = Inr (Some u)" for u
    using get_by_id_found[OF found_pair[OF that]] by simp
  have ok: "fst (get_by_id s user_id) = Inr (working s user_id)" if "lookup_succeeds s"
    using that by (rule get_by_id_ok)
  have ab: "fst (get_by_id s user_id) = Inr None"
    if "lookup_succeeds s" "working s user_id = None"
    using ok[OF that(1)] that(2) by simp
  have ex: "\<exists>e. lookup_failure s = Some e" if "\<not> lookup_succeeds s"
    using that lookup_failure_None[of s] by (cases "lookup_failure s") auto
  have h: "fst (get_by_id s user_id) = Inr None \<and>
      last (trace (snd (get_by_id s user_id))) = Rollback \<and>
      working (snd (get_by_id s user_id)) = committed s \<and>
      committed (snd (get_by_id s user_id)) = committed s \<and>
      added (snd (get_by_id s user_id)) = []"
    if "lookup_failure s = Some e" "is_SQLAlchemyError e" "rollback_outcome s = None" for e
    using that by (rule get_by_id_handled)
  have tot: "\<exists>r. fst (get_by_id s user_id) = Inr r"
    if a: "\<forall>e. lookup_failure s = Some e \<longrightarrow> is_SQLAlchemyError e" and b: "rollback_outcome s = None"
  proof (cases "lookup_failure s")
    case None
    then have "lookup_succeeds s" by (simp add: lookup_failure_None)
    then show ?thesis using ok by blast
  next
    case (Some e)
    then have "is_SQLAlchemyError e" using a by blast
    then show ?thesis using h[OF Some _ b] by blast
  qed
  have p: "fst (get_by_id s user_id) = Inl e"
    if "lookup_failure s = Some e" "\<not> is_SQLAlchemyError e" for e
    using that by (rule get_by_id_propagates)
  have rf: "fst (get_by_id s user_id) = Inl e'"
    if "lookup_failure s = Some e" "is_SQLAlchemyError e" "rollback_outcome s = Some e'" for e e'
    using that by (rule get_by_id_rollback_fails)
  show ?thesis using f ok ab ex h tot p rf by blast
qed

text \<open>
  The claim as it was stated, that \<open>get_by_id\<close> never raises, fails where \<open>execute\<close>
  raises an exception that is no \<open>SQLAlchemyError\<close>: the exception reaches the caller.
\<close>

theorem get_by_id_raises_counterexample:
  "fst (get_by_id crashing_session 1) = Inl (OtherException ''ConnectionRefusedError'')"
proof -
  have "lookup_failure crashing_session = Some (OtherException ''ConnectionRefusedError'')"
    by (simp add: lookup_failure_def crashing_session_def)
  then show ?thesis by (rule get_by_id_propagates) simp
qed

text \<open>
  In the example session the user of key 1 is found and key 7 gives \<open>None\<close>. When
  the database fails with a \<open>SQLAlchemyError\<close>, key 1 gives \<open>None\<close> after a rollback;
  another exception reaches the caller, and so does the error of a rollback that fails.
\<close>

theorem get_by_id_witness:
  "lookup_succeeds demo_session \<and>
   fst (get_by_id demo_session 1) = Inr (Some demo_user) \<and>
   working demo_session 7 = None \<and>
   fst (get_by_id demo_session 7) = Inr None \<and>
   lookup_failure failing_session = Some (SQLAlchemyError ''connection lost'') \<and>
   rollback_outcome failing_session = None \<and>
   fst (get_by_id failing_session 1) = Inr None \<and>
   last (trace (snd (get_by_id failing_session 1))) = Rollback \<and>
   working (snd (get_by_id failing_session 1)) = committed failing_session \<and>
   lookup_failure crashing_session = Some (OtherException ''ConnectionRefusedError'') \<and>
   fst (get_by_id crashing_session 1) = Inl (OtherException ''ConnectionRefusedError'') \<and>
   lookup_failure broken_session = Some (SQLAlchemyError ''connection lost'') \<and>
   rollback_outcome broken_session = Some (SQLAlchemyError ''cannot roll back'') \<and>
   fst (get_by_id broken_session 1) = Inl (SQLAlchemyError ''cannot roll back'')"
proof -
  have w: "working demo_session 1 = Some demo_user" "working demo_session 7 = None"
    by (simp_all add: demo_session_def)
  have lf: "lookup_failure failing_session = Some (SQLAlchemyError ''connection lost'')"
    "rollback_outcome failing_session = None"
    by (simp_all add: lookup_failure_def rollback_outcome_def next_outcome_def
        failing_session_def)
  have lc: "lookup_failure crashing_session = Some (OtherException ''ConnectionRefusedError'')"
    by (simp add: lookup_failure_def crashing_session_def)
  have lb: "lookup_failure broken_session = Some (SQLAlchemyError ''connection lost'')"
    "rollback_outcome broken_session = Some (SQLAlchemyError ''cannot roll back'')"
    by (simp_all add: lookup_failure_def rollback_outcome_def next_outcome_def
        broken_session_def)
  have q1: "is_SQLAlchemyError (SQLAlchemyError ''connection lost'')"
    and q2: "\<not> is_SQLAlchemyError (OtherException ''ConnectionRefusedError'')"
    by simp_all
  have r1': "fst (get_by_id demo_session 1) = Inr (working demo_session 1)"
    using get_by_id_spec[of demo_session 1] lookup_demo by blast
  have r1: "fst (get_by_id demo_session 1) = Inr (Some demo_user)"
    unfolding r1' w(1) ..
  have r2: "fst (get_by_id demo_session 7) = Inr None"
    using get_by_id_spec[of demo_session 7] lookup_demo w(2) by blast
  have r3: "fst (get_by_id failing_session 1) = Inr None \<and>
            last (trace (snd (get_by_id failing_session 1))) = Rollback \<and>
            working (snd (get_by_id failing_session 1)) = committed failing_session"
    using get_by_id_spec[of failing_session 1] lf q1 by blast
  have r4: "fst (get_by_id crashing_session 1) = Inl (OtherException ''ConnectionRefusedError'')"
    using get_by_id_spec[of crashing_session 1] lc q2 by blast
  have r5: "fst (get_by_id broken_session 1) = Inl (SQLAlchemyError ''cannot roll back'')"
    using get_by_id_spec[of broken_session 1] lb q1 by blast
  show ?thesis using lookup_demo r1 w(2) r2 lf r3 lc r4 lb r5 by blast
qed

section \<open>Upgrading a user\<close>

text \<open>
  C8. For a user found by id, when the commit and the refresh that follow the lookup
  succeed, \<open>upgrade_user_to_pro\<close> returns the entity with the pro-status flag set,
  and that entity is what the session holds and what is committed. It is idempotent:
  after a call that returned an entity the flag is set, it is still set after a second
  call whatever happens to that call, and a second call whose round trips succeed
  returns the same entity. For an id with no matching user it returns \<open>None\<close>.
\<close>

theorem upgrade_user_to_pro_spec:
  "(fst (get_by_id s user_id) = Inr (Some u) \<and> round_trips_ok 2 (snd (get_by_id s user_id)) \<longrightarrow>
      fst (upgrade_user_to_pro s user_id) = Some (u\<lparr>is_pro := True\<rparr>) \<and>
      working (snd (upgrade_user_to_pro s user_id)) user_id = Some (u\<lparr>is_pro := True\<rparr>) \<and>
      committed (snd (upgrade_user_to_pro s user_id)) user_id = Some (u\<lparr>is_pro := True\<rparr>)) \<and>
   (fst (upgrade_user_to_pro s user_id) = Some u' \<longrightarrow>
      is_pro u' \<and>
      pro_flag_set (snd (upgrade_user_to_pro s user_id)) user_id \<and>
      pro_flag_set (snd (upgrade_user_to_pro (snd (upgrade_user_to_pro s user_id)) user_id)) user_id \<and>
      (round_trips_ok 4 (snd (upgrade_user_to_pro s user_id)) \<longrightarrow>
         fst (upgrade_user_to_pro (snd (upgrade_user_to_pro s user_id)) user_id) = Some u')) \<and>
   (working s user_id = None \<longrightarrow> fst (upgrade_user_to_pro s user_id) = None)"
proof -
  let ?s2 = "snd (upgrade_user_to_pro s user_id)"
  have A: "fst (upgrade_user_to_pro s user_id) = Some (u\<lparr>is_pro := True\<rparr>) \<and>
      working ?s2 user_id = Some (u\<lparr>is_pro := True\<rparr>) \<and>
      committed ?s2 user_id = Some (u\<lparr>is_pro := True\<rparr>)"
    if "fst (get_by_id s user_id) = Inr (Some u)" "round_trips_ok 2 (snd (get_by_id s user_id))"
    using upgrade_succeeds(1,2,3)[OF found_pair[OF that(1)] that(2)] by simp
  have B: "is_pro u' \<and> pro_flag_set ?s2 user_id \<and>
      pro_flag_set (snd (upgrade_user_to_pro ?s2 user_id)) user_id \<and>
      (round_trips_ok 4 ?s2 \<longrightarrow> fst (upgrade_user_to_pro ?s2 user_id) = Some u')"
    if h: "fst (upgrade_user_to_pro s user_id) = Some u'"
  proof -
    note S = upgrade_Some[OF h]
    have p2: "pro_flag_set ?s2 user_id" using S by (simp add: pro_flag_set_def)
    have p3: "pro_flag_set (snd (upgrade_user_to_pro ?s2 user_id)) user_id"
      using p2 by (rule upgrade_preserves_pro)
    have again: "fst (upgrade_user_to_pro ?s2 user_id) = Some u'" if ok: "round_trips_ok 4 ?s2"
    proof -
      have ok2: "round_trips_ok 2 ?s2"
        using ok by (rule round_trips_ok_mono) simp
      have "new_ids ?s2 = []" using S(4) by (simp add: new_ids_def)
      then have "lookup_succeeds ?s2" using ok2 by (simp add: lookup_succeeds_def)
      then have g: "fst (get_by_id ?s2 user_id) = Inr (Some u')"
        using get_by_id_ok[of ?s2 user_id] S(2) by simp
      note gp = found_pair[OF g]
      have d: "script (snd (get_by_id ?s2 user_id)) = drop 2 (script ?s2)"
        using get_by_id_found[OF gp] by simp
      have "round_trips_ok (2 + 2) ?s2" using ok by simp
      then have "round_trips_ok 2 (snd (get_by_id ?s2 user_id))"
        using d by (rule round_trips_ok_drop)
      from upgrade_succeeds(1)[OF gp this]
      have "fst (upgrade_user_to_pro ?s2 user_id) = Some (u'\<lparr>is_pro := True\<rparr>)" .
      then show ?thesis using S(1) by simp
    qed
    show ?thesis using S(1) p2 p3 again by blast
  qed
  have C: "fst (upgrade_user_to_pro s user_id) = None" if "working s user_id = None"
    using that by (rule upgrade_absent)
  show ?thesis using A B C by blast
qed

lemma round_trips_ok_empty: "script s = [] \<Longrightarrow> round_trips_ok n s"
  by (simp add: round_trips_ok_def)

lemma demo_user_attrs:
  "github_link demo_user = PNone"
  "linkedin_link demo_user = PStr (str ''https://linkedin.com/in/ab'')"
  "profile_photo_url demo_user = PNone"
  "is_pro demo_user = False"
  by (simp_all add: demo_user_def User_def)

text \<open>
  In the example session the user of key 1 is not a pro user; the first call returns
  the user with the flag set, the second call returns the same, and the flag is set
  after both. Key 7 has no user and gives \<open>None\<close>.
\<close>

theorem upgrade_user_to_pro_witness:
  "fst (get_by_id demo_session 1) = Inr (Some demo_user) \<and>
   round_trips_ok 2 (snd (get_by_id demo_session 1)) \<and>
   \<not> is_pro demo_user \<and>
   fst (upgrade_user_to_pro demo_session 1) = Some (demo_user\<lparr>is_pro := True\<rparr>) \<and>
   round_trips_ok 4 (snd (upgrade_user_to_pro demo_session 1)) \<and>
   fst (upgrade_user_to_pro (snd (upgrade_user_to_pro demo_session 1)) 1) =
     Some (demo_user\<lparr>is_pro := True\<rparr>) \<and>
   pro_flag_set (snd (upgrade_user_to_pro (snd (upgrade_user_to_pro demo_session 1)) 1)) 1 \<and>
   working demo_session 7 = None \<and>
   fst (upgrade_user_to_pro demo_session 7) = None"
proof -
  note gp = found_pair[OF get_demo]
  have sc: "script demo_session = []" by (simp add: demo_session_def)
  have s1: "script (snd (get_by_id demo_session 1)) = []"
    using get_by_id_found[OF gp] sc by simp
  have ok1: "round_trips_ok 2 (snd (get_by_id demo_session 1))"
    using s1 by (rule round_trips_ok_empty)
  have s2: "script (snd (upgrade_user_to_pro demo_session 1)) = []"
    using upgrade_succeeds(5)[OF gp ok1] s1 by simp
  have ok2: "round_trips_ok 4 (snd (upgrade_user_to_pro demo_session 1))"
    using s2 by (rule round_trips_ok_empty)
  have w7: "working demo_session 7 = None" by (simp add: demo_session_def)
  have np: "\<not> is_pro demo_user" by (simp add: demo_user_attrs)
  note T1 = upgrade_user_to_pro_spec[of demo_session 1 demo_user "demo_user\<lparr>is_pro := True\<rparr>"]
  note T7 = upgrade_user_to_pro_spec[of demo_session 7 demo_user demo_user]
  have a: "fst (upgrade_user_to_pro demo_session 1) = Some (demo_user\<lparr>is_pro := True\<rparr>)"
    using T1 get_demo ok1 by blast
  have b: "fst (upgrade_user_to_pro (snd (upgrade_user_to_pro demo_session 1)) 1) =
             Some (demo_user\<lparr>is_pro := True\<rparr>) \<and>
           pro_flag_set (snd (upgrade_user_to_pro (snd (upgrade_user_to_pro demo_session 1)) 1)) 1"
    using T1 a ok2 by blast
  have c: "fst (upgrade_user_to_pro demo_session 7) = None"
    using T7 w7 by blast
  show ?thesis using get_demo ok1 np a ok2 b w7 c by blast
qed

section \<open>Updating a profile\<close>

text \<open>
  C3. For every stored user found by id and every update object, in particular every
  \<open>UserUpdate\<close> input: after \<open>update_user_profile\<close> the user is still stored, and
  each of \<open>github_link\<close>, \<open>linkedin_link\<close> and \<open>profile_photo_url\<close> whose update
  attribute is not truthy (absent, \<open>None\<close> or the empty string) has the value it had,
  in the session and as committed; so an update with only \<open>github_link\<close> set leaves
  \<open>linkedin_link\<close> and \<open>profile_photo_url\<close> unchanged. When the call returns an
  entity, that entity is the stored one, and each of the three fields holds the update
  value where that is truthy and the old value otherwise.
\<close>

theorem update_user_profile_frame:
  assumes "fst (get_by_id s user_id) = Inr (Some u)"
  shows "\<exists>w c.
      working (snd (update_user_profile s user_id user_update)) user_id = Some w \<and>
      committed (snd (update_user_profile s user_id user_update)) user_id = Some c \<and>
      (\<not> attr_truthy user_update ''github_link'' \<longrightarrow>
         github_link w = github_link u \<and> github_link c = github_link u) \<and>
      (\<not> attr_truthy user_update ''linkedin_link'' \<longrightarrow>
         linkedin_link w = linkedin_link u \<and> linkedin_link c = linkedin_link u) \<and>
      (\<not> attr_truthy user_update ''profile_photo_url'' \<longrightarrow>
         profile_photo_url w = profile_photo_url u \<and>
         profile_photo_url c = profile_photo_url u) \<and>
      (\<forall>x. fst (update_user_profile s user_id user_update) = Some x \<longrightarrow>
         x = w \<and> x = c \<and>
         (\<exists>gh li ph.
            getattr user_update ''github_link'' = Inr gh \<and>
            getattr user_update ''linkedin_link'' = Inr li \<and>
            getattr user_update ''profile_photo_url'' = Inr ph \<and>
            x = u\<lparr>github_link := py_or gh (github_link u),
                  linkedin_link := py_or li (linkedin_link u),
                  profile_photo_url := py_or ph (profile_photo_url u)\<rparr>))"
proof -
  from update_frame_aux[OF found_pair[OF assms], of user_update]
  obtain w c where
    w: "working (snd (update_user_profile s user_id user_update)) user_id = Some w" and
    c: "committed (snd (update_user_profile s user_id user_update)) user_id = Some c" and
    fw: "frame_ok user_update u w" and fc: "frame_ok user_update u c" and
    x: "\<forall>x. fst (update_user_profile s user_id user_update) = Some x \<longrightarrow>
         x = w \<and> x = c \<and>
         (\<exists>gh li ph.
            getattr user_update ''github_link'' = Inr gh \<and>
            getattr user_update ''linkedin_link'' = Inr li \<and>
            getattr user_update ''profile_photo_url'' = Inr ph \<and>
            x = u\<lparr>github_link := py_or gh (github_link u),
                  linkedin_link := py_or li (linkedin_link u),
                  profile_photo_url := py_or ph (profile_photo_url u)\<rparr>)"
    by blast
  have g: "\<not> attr_truthy user_update ''github_link'' \<longrightarrow>
         github_link w = github_link u \<and> github_link c = github_link u"
    using fw fc unfolding frame_ok_def by blast
  have l: "\<not> attr_truthy user_update ''linkedin_link'' \<longrightarrow>
         linkedin_link w = linkedin_link u \<and> linkedin_link c = linkedin_link u"
    using fw fc unfolding frame_ok_def by blast
  have p: "\<not> attr_truthy user_update ''profile_photo_url'' \<longrightarrow>
         profile_photo_url w = profile_photo_url u \<and>
         profile_photo_url c = profile_photo_url u"
    using fw fc unfolding frame_ok_def by blast
  show ?thesis using w c g l p x by blast
qed

text \<open>
  An update object with a \<open>github_link\<close>, an empty \<open>linkedin_link\<close> and no
  \<open>profile_photo_url\<close> leaves the stored LinkedIn address and profile photo of the
  example user as they were.
\<close>

theorem update_user_profile_frame_witness:
  "fst (get_by_id demo_session 1) = Inr (Some demo_user) \<and>
   attr_truthy duck_update ''github_link'' \<and>
   \<not> attr_truthy duck_update ''linkedin_link'' \<and>
   \<not> attr_truthy duck_update ''profile_photo_url'' \<and>
   (\<exists>w c. working (snd (update_user_profile demo_session 1 duck_update)) 1 = Some w \<and>
          committed (snd (update_user_profile demo_session 1 duck_update)) 1 = Some c \<and>
          linkedin_link w = PStr (str ''https://linkedin.com/in/ab'') \<and>
          linkedin_link c = PStr (str ''https://linkedin.com/in/ab'') \<and>
          profile_photo_url w = PNone \<and> profile_photo_url c = PNone)"
proof -
  have t: "attr_truthy duck_update ''github_link''"
    "\<not> attr_truthy duck_update ''linkedin_link''"
    "\<not> attr_truthy duck_update ''profile_photo_url''"
    by (simp_all add: attr_truthy_def getattr_def duck_update_def str_def)
  from update_user_profile_frame[OF get_demo, of duck_update] t(2,3)
  obtain w c where
    "working (snd (update_user_profile demo_session 1 duck_update)) 1 = Some w"
    "committed (snd (update_user_profile demo_session 1 duck_update)) 1 = Some c"
    "linkedin_link w = linkedin_link demo_user" "linkedin_link c = linkedin_link demo_user"
    "profile_photo_url w = profile_photo_url demo_user"
    "profile_photo_url c = profile_photo_url demo_user"
    by blast
  then have "\<exists>w c. working (snd (update_user_profile demo_session 1 duck_update)) 1 = Some w \<and>
          committed (snd (update_user_profile demo_session 1 duck_update)) 1 = Some c \<and>
          linkedin_link w = PStr (str ''https://linkedin.com/in/ab'') \<and>
          linkedin_link c = PStr (str ''https://linkedin.com/in/ab'') \<and>
          profile_photo_url w = PNone \<and> profile_photo_url c = PNone"
    unfolding demo_user_attrs by blast
  then show ?thesis using get_demo t by blast
qed

text \<open>
  C4. For every user id and every instance of the class the name \<open>UserUpdate\<close> is
  bound to, \<open>update_user_profile\<close> returns \<open>None\<close>: reading \<open>github_link\<close> raises
  \<open>AttributeError\<close>. The session is left as the lookup alone leaves it: no field is
  assigned and nothing further is committed; on a session with nothing pending the
  working view and the committed table are what they were.
\<close>

theorem update_user_profile_effective_UserUpdate:
  assumes "import_name ''UserUpdate'' = Inr c" "instance_of c user_update"
  shows "fst (update_user_profile s user_id user_update) = None \<and>
         getattr user_update ''github_link'' = Inl (AttributeError ''github_link'') \<and>
         snd (update_user_profile s user_id user_update) = snd (get_by_id s user_id) \<and>
         (working s = committed s \<and> added s = [] \<longrightarrow>
            working (snd (update_user_profile s user_id user_update)) = working s \<and>
            committed (snd (update_user_profile s user_id user_update)) = committed s)"
proof -
  have c: "c = UserUpdate_2" using assms(1) by (simp add: import_UserUpdate)
  have names: "map fst (ob_dict user_update) = map fname (cfields UserUpdate_2)"
    using assms(2) c by (simp add: instance_of_def)
  have "''github_link'' \<notin> set (map fst (ob_dict user_update))"
    unfolding names UserUpdate_2_names by simp
  then have a: "getattr user_update ''github_link'' = Inl (AttributeError ''github_link'')"
    by (rule getattr_absent)
  have eq: "update_user_profile s user_id user_update = (None, snd (get_by_id s user_id))"
    by (cases "get_by_id s user_id")
       (auto simp: update_user_profile_def a split: sum.splits option.splits)
  show ?thesis using get_by_id_clean[of s user_id] a by (simp add: eq)
qed

text \<open>
  An instance built from a payload with a \<open>bio\<close>, a \<open>github_profile_url\<close> and a
  \<open>github_link\<close> (which the schema ignores): the user of key 1 is found, the call
  returns \<open>None\<close>, and the user is stored as before.
\<close>

theorem update_user_profile_effective_UserUpdate_witness:
  "construct accept UserUpdate_2
     [(''bio'', PStr (str '' hi '')), (''github_profile_url'', PStr (str ''https://github.com/ab'')),
      (''github_link'', PStr (str ''https://github.com/ab''))] = Inr demo_update \<and>
   import_name ''UserUpdate'' = Inr UserUpdate_2 \<and>
   instance_of UserUpdate_2 demo_update \<and>
   fst (get_by_id demo_session 1) = Inr (Some demo_user) \<and>
   fst (update_user_profile demo_session 1 demo_update) = None \<and>
   working (snd (update_user_profile demo_session 1 demo_update)) 1 = Some demo_user \<and>
   committed (snd (update_user_profile demo_session 1 demo_update)) 1 = Some demo_user"
proof -
  have k: "construct accept UserUpdate_2
     [(''bio'', PStr (str '' hi '')), (''github_profile_url'', PStr (str ''https://github.com/ab'')),
      (''github_link'', PStr (str ''https://github.com/ab''))] = Inr demo_update"
    by (simp add: construct_def class_defs demo_update_def validate_field_def validators_for_def
        check_type_def accept_def strip_whitespace_def strip_def str_def is_space_def)
  have i: "instance_of UserUpdate_2 demo_update"
    using k by (rule construct_instance_of)
  have cl: "working demo_session = committed demo_session \<and> added demo_session = []"
    by (simp add: demo_session_def)
  have w: "working demo_session 1 = Some demo_user" "committed demo_session 1 = Some demo_user"
    by (simp_all add: demo_session_def)
  note T = update_user_profile_effective_UserUpdate[OF import_UserUpdate i, of demo_session 1]
  have n: "fst (update_user_profile demo_session 1 demo_update) = None" using T by blast
  have u: "working (snd (update_user_profile demo_session 1 demo_update)) = working demo_session"
    "committed (snd (update_user_profile demo_session 1 demo_update)) = committed demo_session"
    using T cl by blast+
  have u1: "working (snd (update_user_profile demo_session 1 demo_update)) 1 = Some demo_user"
    "committed (snd (update_user_profile demo_session 1 demo_update)) 1 = Some demo_user"
    unfolding u w by (rule refl)+
  show ?thesis using k import_UserUpdate i get_demo n u1 by blast
qed

end
